theory Spec2Isabelle
  imports Main
begin

section \<open>The route tree (router/router.go)\<close>

text \<open>
  \<^verbatim>\<open>type HTTPMethod string\<close> with five named constants. The Go type is a string type, so a
  node built inside the package may carry any string; the model keeps that and names the
  five constants.
\<close>

type_synonym HTTPMethod = string

definition GET :: HTTPMethod where "GET = ''GET''"
definition POST :: HTTPMethod where "POST = ''POST''"
definition PUT :: HTTPMethod where "PUT = ''PUT''"
definition DELETE :: HTTPMethod where "DELETE = ''DELETE''"
definition Undefined :: HTTPMethod where "Undefined = ''Undefined''"

text \<open>\<^verbatim>\<open>requestInfo{method, route}\<close>; the fields carry the prefix \<open>info_\<close>.\<close>

record requestInfo =
  info_method :: HTTPMethod
  info_route :: string

text \<open>
  \<^verbatim>\<open>RouteNode{children, info, middlewares, handler}\<close>. The builder only ever appends freshly
  allocated nodes, so the pointer structure is a tree and a node owns its children. The
  handler is a nilable func value: \<open>None\<close> is \<^verbatim>\<open>nil\<close>. Handlers and middleware are type
  parameters; the HTTP part below instantiates them.
\<close>

datatype ('h, 'm) RouteNode =
  RouteNode (children: "('h, 'm) RouteNode list") (info: requestInfo)
    (middlewares: "'m list") (handler: "'h option")

subsection \<open>The dispatcher, as far as the router drives it\<close>

text \<open>
  The chi multiplexer is an external library. The router calls three of its operations:
  \<^verbatim>\<open>Get/Post/Put/Delete(pattern, handler)\<close> on the mux itself or on \<^verbatim>\<open>mux.With(mws...)\<close>, and
  \<^verbatim>\<open>Route(pattern, fn)\<close>, which creates a sub-router, runs \<open>fn\<close> on it and mounts it under
  \<open>pattern\<close>. The model records these calls in order: \<open>Handle\<close> holds the chi method, the
  pattern, the inline middleware given to \<^verbatim>\<open>With\<close> and the handler value passed;
  \<open>Mount\<close> holds the pattern and what was registered on the sub-router. Pattern
  validation and request matching inside chi are not modelled.
\<close>

datatype ('h, 'm) chi_entry =
    Handle string string "'m list" "'h option"
  | Mount string "('h, 'm) chi_entry list"

text \<open>\<^verbatim>\<open>routerWrapped{internal *chi.Mux, routeTree *[]*RouteNode}\<close>; \<open>None\<close> is the nil pointer.\<close>

record ('h, 'm) routerWrapped =
  internal :: "('h, 'm) chi_entry list"
  routeTree :: "('h, 'm) RouteNode list option"

text \<open>
  The full routes of a dispatcher: a sub-router mounted at \<open>P\<close> with an entry at \<open>Q\<close>
  contributes the full path \<open>P @ Q\<close>.
\<close>

fun chi_routes :: "string \<Rightarrow> ('h, 'm) chi_entry \<Rightarrow> (string \<times> string \<times> 'm list \<times> 'h option) list" where
  "chi_routes prefix (Handle m p ms h) = [(m, prefix @ p, ms, h)]"
| "chi_routes prefix (Mount p sub) = concat (map (chi_routes (prefix @ p)) sub)"

definition mux_routes :: "string \<Rightarrow> ('h, 'm) chi_entry list \<Rightarrow> (string \<times> string \<times> 'm list \<times> 'h option) list" where
  "mux_routes prefix mux = concat (map (chi_routes prefix) mux)"

definition route_key :: "string \<times> string \<times> 'm list \<times> 'h option \<Rightarrow> string \<times> string" where
  "route_key e = (fst e, fst (snd e))"

text \<open>A wrapper around a new, empty mux, as \<^verbatim>\<open>&routerWrapped{internal: subrouter}\<close> builds it.\<close>

abbreviation emptyWrapper :: "('h, 'm) routerWrapped" where
  "emptyWrapper \<equiv> \<lparr>internal = [], routeTree = None\<rparr>"

subsection \<open>The builder\<close>

text \<open>
  \<^verbatim>\<open>newRouteNode\<close> appends a new node to \<open>n.children\<close> and returns a pointer to it. The model
  returns the updated parent and the new node; the pointer is the last slot of the
  parent's children, and \<open>store_child\<close> writes a node changed through that pointer back
  into the slot.
\<close>

definition newRouteNode ::
  "('h, 'm) RouteNode \<Rightarrow> HTTPMethod \<Rightarrow> string \<Rightarrow> 'h option \<Rightarrow> ('h, 'm) RouteNode \<times> ('h, 'm) RouteNode" where
  "newRouteNode n method pattern handler' =
     (let newNode = RouteNode [] \<lparr>info_method = method, info_route = pattern\<rparr> [] handler'
      in (RouteNode (children n @ [newNode]) (info n) (middlewares n) (handler n), newNode))"

definition store_child :: "('h, 'm) RouteNode \<Rightarrow> ('h, 'm) RouteNode \<Rightarrow> ('h, 'm) RouteNode" where
  "store_child n c =
     RouteNode ((children n)[length (children n) - 1 := c]) (info n) (middlewares n) (handler n)"

text \<open>\<^verbatim>\<open>Route(pattern, f)\<close>: \<open>f\<close> populates the new grouping node in place.\<close>

definition Route ::
  "('h, 'm) RouteNode \<Rightarrow> string \<Rightarrow> (('h, 'm) RouteNode \<Rightarrow> ('h, 'm) RouteNode) \<Rightarrow> ('h, 'm) RouteNode" where
  "Route n pattern f =
     (case newRouteNode n Undefined pattern None of (n', c) \<Rightarrow> store_child n' (f c))"

definition With :: "('h, 'm) RouteNode \<Rightarrow> 'm list \<Rightarrow> ('h, 'm) RouteNode" where
  "With n mws = RouteNode (children n) (info n) (middlewares n @ mws) (handler n)"

definition Get ::
  "('h, 'm) RouteNode \<Rightarrow> string \<Rightarrow> 'h option \<Rightarrow> ('h, 'm) RouteNode \<times> ('h, 'm) RouteNode" where
  "Get n pattern f = newRouteNode n GET pattern f"

definition Post ::
  "('h, 'm) RouteNode \<Rightarrow> string \<Rightarrow> 'h option \<Rightarrow> ('h, 'm) RouteNode \<times> ('h, 'm) RouteNode" where
  "Post n pattern f = newRouteNode n POST pattern f"

definition Put ::
  "('h, 'm) RouteNode \<Rightarrow> string \<Rightarrow> 'h option \<Rightarrow> ('h, 'm) RouteNode \<times> ('h, 'm) RouteNode" where
  "Put n pattern f = newRouteNode n PUT pattern f"

definition Delete ::
  "('h, 'm) RouteNode \<Rightarrow> string \<Rightarrow> 'h option \<Rightarrow> ('h, 'm) RouteNode \<times> ('h, 'm) RouteNode" where
  "Delete n pattern f = newRouteNode n DELETE pattern f"

subsection \<open>The printer\<close>

text \<open>
  \<^verbatim>\<open>fmt.Fprintf(writer, "  %s %s\n", method, currentPath)\<close> makes one \<^verbatim>\<open>Write\<close> call with the
  formatted line. An \<^verbatim>\<open>io.Writer\<close> is a state and a write operation that returns the new
  state and whether it failed.
\<close>

definition Fprintf_route :: "HTTPMethod \<Rightarrow> string \<Rightarrow> string" where
  "Fprintf_route m p = ''  '' @ m @ '' '' @ p @ [CHR 0x0A]"

fun writeRoute ::
  "('w \<Rightarrow> string \<Rightarrow> 'w \<times> bool) \<Rightarrow> 'w \<Rightarrow> ('h, 'm) RouteNode \<Rightarrow> string \<Rightarrow> 'w" where
  "writeRoute wr writer (RouteNode cs i ms h) basePath =
     (let currentPath = basePath @ info_route i in
      if \<not> Option.is_none h \<and> info_method i \<noteq> Undefined then
        (case wr writer (Fprintf_route (info_method i) currentPath) of
           (writer', err) \<Rightarrow>
             if err then writer'
             else fold (\<lambda>child w. writeRoute wr w child currentPath) cs writer')
      else fold (\<lambda>child w. writeRoute wr w child currentPath) cs writer)"

text \<open>
  The in-memory sink of main.go (a \<^verbatim>\<open>bufio.Writer\<close> over a \<^verbatim>\<open>bytes.Buffer\<close>), which never
  fails: the state is the list of chunks written so far.
\<close>

definition Buffer_Write :: "string list \<Rightarrow> string \<Rightarrow> string list \<times> bool" where
  "Buffer_Write buf p = (buf @ [p], False)"

subsection \<open>The materializer\<close>

text \<open>
  \<^verbatim>\<open>registerMethodWithMiddleware(node, methodFunc, path)\<close>: \<open>methodFunc\<close> is one of
  \<^verbatim>\<open>chi.Router.Get/Post/Put/Delete\<close>, given here by the chi method it registers.
\<close>

definition registerMethodWithMiddleware ::
  "('h, 'm) routerWrapped \<Rightarrow> ('h, 'm) RouteNode \<Rightarrow> string \<Rightarrow> string \<Rightarrow> ('h, 'm) routerWrapped" where
  "registerMethodWithMiddleware r node methodFunc path =
     (let inline = (if length (middlewares node) > 0 then middlewares node else [])
      in r\<lparr>internal := internal r @ [Handle methodFunc path inline (handler node)]\<rparr>)"

fun registerWithChi ::
  "('h, 'm) routerWrapped \<Rightarrow> ('h, 'm) RouteNode \<Rightarrow> string \<Rightarrow> ('h, 'm) routerWrapped" where
  "registerWithChi r (RouteNode cs i ms h) basePath =
     (let node = RouteNode cs i ms h; currentPath = basePath @ info_route i in
      if info_method i = Undefined \<and> Option.is_none h \<and> length cs > 0 \<and> length currentPath > 0 then
        (let subWrapper = \<lparr>internal = [], routeTree = None\<rparr>;
             sub = fold (\<lambda>child sw. registerWithChi sw child []) cs subWrapper
         in r\<lparr>internal := internal r @ [Mount currentPath (internal sub)]\<rparr>)
      else if \<not> Option.is_none h then
        (if info_method i = GET then registerMethodWithMiddleware r node ''GET'' currentPath
         else if info_method i = POST then registerMethodWithMiddleware r node ''POST'' currentPath
         else if info_method i = PUT then registerMethodWithMiddleware r node ''PUT'' currentPath
         else if info_method i = DELETE then registerMethodWithMiddleware r node ''DELETE'' currentPath
         else r)
      else fold (\<lambda>child r'. registerWithChi r' child currentPath) cs r)"

subsection \<open>What the dispatcher does with the calls\<close>

text \<open>
  chi panics on a registration call it does not accept, and a panic ends the
  materialization. Whether a call is accepted depends on the call (the method and the
  pattern) and on the calls made before on the same mux; \<open>accepts\<close> stands for that
  behaviour. \<open>chi_run\<close> replays the calls recorded for a mux in the order the router makes
  them: for \<^verbatim>\<open>Route(pattern, fn)\<close> first the calls \<open>fn\<close> makes on the new sub-router, then the
  mount on the parent. It returns the calls made on the mux, or \<open>None\<close> for a panic.
\<close>

datatype chi_call = Call_Handle string string | Call_Mount string

fun chi_run_entry ::
    "(chi_call list \<Rightarrow> chi_call \<Rightarrow> bool) \<Rightarrow> chi_call list \<Rightarrow> ('h, 'm) chi_entry \<Rightarrow> chi_call list option"
  and chi_run ::
    "(chi_call list \<Rightarrow> chi_call \<Rightarrow> bool) \<Rightarrow> chi_call list \<Rightarrow> ('h, 'm) chi_entry list \<Rightarrow> chi_call list option"
  where
  "chi_run_entry accepts made (Handle m p ms h) =
     (if accepts made (Call_Handle m p) then Some (made @ [Call_Handle m p]) else None)"
| "chi_run_entry accepts made (Mount p sub) =
     (case chi_run accepts [] sub of
        None \<Rightarrow> None
      | Some _ \<Rightarrow> if accepts made (Call_Mount p) then Some (made @ [Call_Mount p]) else None)"
| "chi_run accepts made [] = Some made"
| "chi_run accepts made (e # es) =
     (case chi_run_entry accepts made e of
        None \<Rightarrow> None
      | Some made' \<Rightarrow> chi_run accepts made' es)"

text \<open>
  \<open>registerWithChi\<close> on a dispatcher that behaves as \<open>accepts\<close>: the router state when every
  call is accepted, a panic otherwise.
\<close>

datatype dispatcher_panic = RegistrationPanic

definition registerWithChi_checked ::
  "(chi_call list \<Rightarrow> chi_call \<Rightarrow> bool) \<Rightarrow> ('h, 'm) routerWrapped \<Rightarrow> ('h, 'm) RouteNode \<Rightarrow> string
     \<Rightarrow> dispatcher_panic + ('h, 'm) routerWrapped" where
  "registerWithChi_checked accepts r node basePath =
     (let r' = registerWithChi r node basePath in
      case chi_run accepts [] (internal r') of
        None \<Rightarrow> Inl RegistrationPanic
      | Some _ \<Rightarrow> Inr r')"

text \<open>
  Two checks of chi v5 (mux.go): \<^verbatim>\<open>handle\<close> panics unless the pattern begins with \<open>/\<close>, and
  \<^verbatim>\<open>Mount\<close> panics when the pattern is mounted already (it looks for \<^verbatim>\<open>pattern*\<close> and
  \<^verbatim>\<open>pattern/*\<close> among the routes of the mux). \<^verbatim>\<open>Mount\<close> registers \<^verbatim>\<open>pattern/*\<close>, or
  \<^verbatim>\<open>pattern*\<close> when the pattern ends in \<open>/\<close>: \<open>mount_prefix\<close> is the part before the
  star. chi has further checks, on the syntax of parameters and wildcards, that are not
  written here; the properties below hold for every \<open>accepts\<close>.
\<close>

definition begins_with_slash :: "string \<Rightarrow> bool" where
  "begins_with_slash p = (p \<noteq> [] \<and> hd p = CHR ''/'')"

definition mount_prefix :: "string \<Rightarrow> string" where
  "mount_prefix p = (if p \<noteq> [] \<and> last p = CHR ''/'' then p else p @ ''/'')"

fun mounted :: "chi_call list \<Rightarrow> string list" where
  "mounted [] = []"
| "mounted (Call_Handle m p # cs) = mounted cs"
| "mounted (Call_Mount p # cs) = mount_prefix p # mounted cs"

fun chi_v5_accepts :: "chi_call list \<Rightarrow> chi_call \<Rightarrow> bool" where
  "chi_v5_accepts made (Call_Handle m p) = begins_with_slash p"
| "chi_v5_accepts made (Call_Mount p) =
     (begins_with_slash p \<and> mount_prefix p \<notin> set (mounted made))"

text \<open>
  The patterns under which chi reaches the registered handlers, each with its method. For
  an entry of the mux itself this is its pattern. The handler of \<^verbatim>\<open>Mount(p, sub)\<close> is
  reached for \<open>p\<close>, \<open>p/\<close> and \<open>p/...\<close> (only \<open>p...\<close> when \<open>p\<close> ends in \<open>/\<close>) and
  hands the sub-router the path from that slash on (\<^verbatim>\<open>nextRoutePath\<close>: \<open>/\<close> followed by
  what the star matched, \<open>/\<close> alone for \<open>p\<close> and \<open>p/\<close>). So what the sub-router has at
  \<open>x\<close> is reached at \<open>mount_prefix p @ tl x\<close>, and what it has at \<open>/\<close> also at the bare
  \<open>p\<close>. Where two registrations claim the same method and pattern chi keeps one of
  them; this listing keeps both.
\<close>

fun chi_patterns_entry :: "('h, 'm) chi_entry \<Rightarrow> (string \<times> string) list"
  and chi_patterns :: "('h, 'm) chi_entry list \<Rightarrow> (string \<times> string) list" where
  "chi_patterns_entry (Handle m q ms h) = [(m, q)]"
| "chi_patterns_entry (Mount p sub) =
     concat (map (\<lambda>e. (fst e, mount_prefix p @ tl (snd e))
                      # (if snd e = ''/'' \<and> mount_prefix p \<noteq> p then [(fst e, p)] else []))
               (chi_patterns sub))"
| "chi_patterns [] = []"
| "chi_patterns (e # es) = chi_patterns_entry e @ chi_patterns es"

section \<open>Responses, requests and the auth interceptor (utils/helpers.go)\<close>

text \<open>
  A JSON value; \<^verbatim>\<open>data any\<close> is a JSON value or \<^verbatim>\<open>nil\<close>. \<^verbatim>\<open>APIResponse\<close> is encoded by its
  struct tags: \<open>success\<close> always, \<open>data\<close> and \<open>error\<close> only when not empty
  (\<^verbatim>\<open>omitempty\<close>).
\<close>

datatype json = JNull | JBool bool | JNumber int | JString string
  | JArray "json list" | JObject "(string \<times> json) list"

record APIResponse =
  Success :: bool
  Data :: "json option"
  Error :: string

definition Marshal_APIResponse :: "APIResponse \<Rightarrow> json" where
  "Marshal_APIResponse resp =
     JObject ([(''success'', JBool (Success resp))]
        @ (case Data resp of None \<Rightarrow> [] | Some d \<Rightarrow> [(''data'', d)])
        @ (if Error resp = [] then [] else [(''error'', JString (Error resp))]))"

text \<open>
  \<^verbatim>\<open>http.Header\<close> maps a key to its list of values; \<^verbatim>\<open>Get\<close> returns the first value, or the
  empty string when there is none. A \<^verbatim>\<open>ResponseWriter\<close> holds the header map, the status
  once written (a later \<^verbatim>\<open>WriteHeader\<close> is ignored, and a write without one sends 200)
  and the JSON documents written to the body.
\<close>

record Request =
  req_Header :: "string \<rightharpoonup> string list"
  RemoteAddr :: string

record ResponseWriter =
  rw_Header :: "string \<rightharpoonup> string list"
  rw_status :: "nat option"
  rw_body :: "json list"

definition Header_Get :: "(string \<rightharpoonup> string list) \<Rightarrow> string \<Rightarrow> string" where
  "Header_Get h key = (case h key of None \<Rightarrow> [] | Some [] \<Rightarrow> [] | Some (v # _) \<Rightarrow> v)"

definition Header_Set :: "(string \<rightharpoonup> string list) \<Rightarrow> string \<Rightarrow> string \<Rightarrow> (string \<rightharpoonup> string list)" where
  "Header_Set h key v = h(key \<mapsto> [v])"

definition WriteHeader :: "ResponseWriter \<Rightarrow> nat \<Rightarrow> ResponseWriter" where
  "WriteHeader w status =
     (case rw_status w of None \<Rightarrow> w\<lparr>rw_status := Some status\<rparr> | Some _ \<Rightarrow> w)"

definition Encode :: "ResponseWriter \<Rightarrow> APIResponse \<Rightarrow> ResponseWriter" where
  "Encode w resp = (WriteHeader w 200)\<lparr>rw_body := rw_body w @ [Marshal_APIResponse resp]\<rparr>"

definition StatusOK :: nat where "StatusOK = 200"
definition StatusUnauthorized :: nat where "StatusUnauthorized = 401"

definition RespondWithJSON ::
  "ResponseWriter \<Rightarrow> nat \<Rightarrow> bool \<Rightarrow> json option \<Rightarrow> string \<Rightarrow> ResponseWriter" where
  "RespondWithJSON w status success data errorMsg =
     (let response = \<lparr>Success = success, Data = data, Error = errorMsg\<rparr>;
          w1 = w\<lparr>rw_Header := Header_Set (rw_Header w) ''Content-Type'' ''application/json''\<rparr>;
          w2 = WriteHeader w1 status
      in Encode w2 response)"

text \<open>
  A handler takes the response writer, the request and the process log, and returns the
  writer and the log as it leaves them. A middleware wraps a handler.
\<close>

type_synonym Handler =
  "ResponseWriter \<Rightarrow> Request \<Rightarrow> string list \<Rightarrow> ResponseWriter \<times> string list"
type_synonym Middleware = "Handler \<Rightarrow> Handler"

text \<open>
  \<^verbatim>\<open>strings.HasPrefix\<close>, \<^verbatim>\<open>strings.TrimPrefix\<close> and \<^verbatim>\<open>subtle.ConstantTimeCompare\<close> (1 when the
  two byte strings are equal, 0 otherwise), by their library contracts.
\<close>

definition HasPrefix :: "string \<Rightarrow> string \<Rightarrow> bool" where
  "HasPrefix s pre = (length pre \<le> length s \<and> take (length pre) s = pre)"

definition TrimPrefix :: "string \<Rightarrow> string \<Rightarrow> string" where
  "TrimPrefix s pre = (if HasPrefix s pre then drop (length pre) s else s)"

definition ConstantTimeCompare :: "string \<Rightarrow> string \<Rightarrow> int" where
  "ConstantTimeCompare x y = (if x = y then 1 else 0)"

definition MiddlewareAPIAuth :: "string \<Rightarrow> Middleware" where
  "MiddlewareAPIAuth configAPIKey next' w r lg =
     (let authHeader = Header_Get (req_Header r) ''Authorization'' in
      if authHeader = [] then
        (RespondWithJSON w StatusUnauthorized False None ''Missing API Key'',
         lg @ [''Attempt to send request with a missing API Key from: '' @ RemoteAddr r])
      else
        (let apiKeyPrefix = ''Bearer '' in
         if \<not> HasPrefix authHeader apiKeyPrefix then
           (RespondWithJSON w StatusUnauthorized False None ''Invalid Authorization format.'',
            lg @ [''Attempt to send request with invalid Authorization format from: ''
                   @ RemoteAddr r])
         else
           (let headerAPIKey = TrimPrefix authHeader apiKeyPrefix in
            if ConstantTimeCompare headerAPIKey configAPIKey \<noteq> 1 then
              (RespondWithJSON w StatusUnauthorized False None ''Invalid API Key'',
               lg @ [''Attempt to send request with an invalid API Key from: '' @ RemoteAddr r])
            else next' w r lg)))"

section \<open>The lifecycle (router/router.go)\<close>

text \<open>
  Dereferencing the nil tree pointer, or indexing an empty slice, is a run-time panic.
  A feature module (\<^verbatim>\<open>RouteProvider.RegisterRoutes\<close>) populates the scope node it is given.
  \<^verbatim>\<open>New\<close> also configures the dispatcher-wide middleware stack of the mux from the
  configuration; that stack is not part of the route tree and is left out.
\<close>

datatype panic = NilPointerDereference | IndexOutOfRange

record 'c RoutingContext =
  Providers :: "((Handler, Middleware) RouteNode \<Rightarrow> 'c \<Rightarrow> (Handler, Middleware) RouteNode) list"

definition New :: "'c \<Rightarrow> (Handler, Middleware) routerWrapped" where
  "New cfg = \<lparr>internal = [],
     routeTree = Some [RouteNode [] \<lparr>info_method = Undefined, info_route = []\<rparr> [] None]\<rparr>"

definition healthHandler :: Handler where
  "healthHandler w r lg =
     (RespondWithJSON w StatusOK True (Some (JObject [(''status'', JString ''healthy'')])) [], lg)"

definition apiRoot :: string where
  "apiRoot = ''/api'' @ ''/'' @ ''v1''"

definition SetupRoutes ::
  "(Handler, Middleware) routerWrapped \<Rightarrow> 'c RoutingContext \<Rightarrow> 'c
     \<Rightarrow> panic + (Handler, Middleware) routerWrapped" where
  "SetupRoutes r context' cfg =
     (case routeTree r of
        None \<Rightarrow> Inl NilPointerDereference
      | Some [] \<Rightarrow> Inl IndexOutOfRange
      | Some (root # rest) \<Rightarrow>
          (let root1 = Route root apiRoot
                 (\<lambda>n. fold (\<lambda>providers n'. providers n' cfg) (Providers context') n);
               root2 = fst (Get root1 ''/health'' (Some healthHandler));
               r' = registerWithChi (r\<lparr>routeTree := Some (root2 # rest)\<rparr>) root2 []
           in Inr r'))"

definition ClearRouteTree :: "('h, 'm) routerWrapped \<Rightarrow> ('h, 'm) routerWrapped" where
  "ClearRouteTree r = r\<lparr>routeTree := None\<rparr>"

definition WriteRoutes ::
  "('w \<Rightarrow> string \<Rightarrow> 'w \<times> bool) \<Rightarrow> ('h, 'm) routerWrapped \<Rightarrow> 'w
     \<Rightarrow> panic + (('h, 'm) routerWrapped \<times> 'w)" where
  "WriteRoutes wr r writer =
     (case routeTree r of
        None \<Rightarrow> Inl NilPointerDereference
      | Some [] \<Rightarrow> Inl IndexOutOfRange
      | Some (root # rest) \<Rightarrow> Inr (r, writeRoute wr writer root []))"

section \<open>Notions used to state the properties\<close>

text \<open>
  A node is well formed when it carries a handler exactly if its method is not
  \<open>Undefined\<close> (the invariant of the data model).
\<close>

definition wellformed_node :: "('h, 'm) RouteNode \<Rightarrow> bool" where
  "wellformed_node n = ((info_method (info n) = Undefined) = Option.is_none (handler n))"

text \<open>The methods for which the materializer has a registration function.\<close>

definition verb :: "HTTPMethod \<Rightarrow> bool" where
  "verb m = (m = GET \<or> m = POST \<or> m = PUT \<or> m = DELETE)"

text \<open>
  Every handler-carrying node of the tree is a leaf, and its method is one of the five
  constants.
\<close>

fun handlers_are_leaves :: "('h, 'm) RouteNode \<Rightarrow> bool" where
  "handlers_are_leaves (RouteNode cs i ms h) =
     ((Option.is_none h \<or> (cs = [] \<and> (verb (info_method i) \<or> info_method i = Undefined)))
      \<and> list_all handlers_are_leaves cs)"

text \<open>The tree with the middleware of every handler-less node removed.\<close>

fun clear_group_middlewares :: "('h, 'm) RouteNode \<Rightarrow> ('h, 'm) RouteNode" where
  "clear_group_middlewares (RouteNode cs i ms h) =
     RouteNode (map clear_group_middlewares cs) i (if Option.is_none h then [] else ms) h"

text \<open>
  \<open>Route_nest [s1, ..., sk] f n\<close> is the nested declaration
  \<^verbatim>\<open>n.Route(s1, func(n) { n.Route(s2, ... func(n) { f(n) }) })\<close>.
\<close>

fun Route_nest ::
  "string list \<Rightarrow> (('h, 'm) RouteNode \<Rightarrow> ('h, 'm) RouteNode) \<Rightarrow> ('h, 'm) RouteNode \<Rightarrow> ('h, 'm) RouteNode" where
  "Route_nest [] f n = f n"
| "Route_nest (s # ss) f n = Route n s (Route_nest ss f)"

text \<open>The root node that \<open>New\<close> creates, and a grouping node with no children yet.\<close>

definition group_node :: "string \<Rightarrow> 'm list \<Rightarrow> ('h, 'm) RouteNode" where
  "group_node s ms = RouteNode [] \<lparr>info_method = Undefined, info_route = s\<rparr> ms None"

abbreviation root_node :: "('h, 'm) RouteNode" where
  "root_node \<equiv> group_node [] []"

text \<open>
  The nodes of a tree with the list of path segments from the root to each:
  \<open>segment_paths\<close> lists every node, \<open>reachable_paths\<close> only the nodes all of whose
  proper ancestors are without a handler. The full path of such an entry under a base
  path is the plain concatenation of the base and the segments. \<open>printable\<close> and
  \<open>registrable\<close> are the node-local tests of the printer and of the materializer.
\<close>

definition push_segment :: "string \<Rightarrow> string list \<times> 'a \<Rightarrow> string list \<times> 'a" where
  "push_segment s e = (s # fst e, snd e)"

fun segment_paths :: "('h, 'm) RouteNode \<Rightarrow> (string list \<times> ('h, 'm) RouteNode) list" where
  "segment_paths (RouteNode cs i ms h) =
     ([info_route i], RouteNode cs i ms h)
       # concat (map (\<lambda>c. map (push_segment (info_route i)) (segment_paths c)) cs)"

fun reachable_paths :: "('h, 'm) RouteNode \<Rightarrow> (string list \<times> ('h, 'm) RouteNode) list" where
  "reachable_paths (RouteNode cs i ms h) =
     ([info_route i], RouteNode cs i ms h)
       # (if Option.is_none h
          then concat (map (\<lambda>c. map (push_segment (info_route i)) (reachable_paths c)) cs)
          else [])"

definition printable :: "string list \<times> ('h, 'm) RouteNode \<Rightarrow> bool" where
  "printable e = (\<not> Option.is_none (handler (snd e)) \<and> info_method (info (snd e)) \<noteq> Undefined)"

definition registrable :: "string list \<times> ('h, 'm) RouteNode \<Rightarrow> bool" where
  "registrable e = (\<not> Option.is_none (handler (snd e)) \<and> verb (info_method (info (snd e))))"

definition full_path :: "string \<Rightarrow> string list \<times> ('h, 'm) RouteNode \<Rightarrow> string" where
  "full_path b e = b @ concat (fst e)"

definition printed_line :: "string \<Rightarrow> string list \<times> ('h, 'm) RouteNode \<Rightarrow> string" where
  "printed_line b e = Fprintf_route (info_method (info (snd e))) (full_path b e)"

definition registered_route ::
  "string \<Rightarrow> string list \<times> ('h, 'm) RouteNode \<Rightarrow> string \<times> string \<times> 'm list \<times> 'h option" where
  "registered_route b e =
     (info_method (info (snd e)), full_path b e, middlewares (snd e), handler (snd e))"

text \<open>The line the printer formats for a registered route.\<close>

definition route_line :: "string \<times> string \<times> 'm list \<times> 'h option \<Rightarrow> string" where
  "route_line e = Fprintf_route (fst e) (fst (snd e))"

text \<open>
  Two trees built through the exported API under a root with middleware \<open>[9]\<close>. In
  \<open>leaf_tree\<close>, \<^verbatim>\<open>n.Get("/a", h1).With(5, 6)\<close> and \<^verbatim>\<open>n.Post("/b", h2)\<close> are siblings under
  \<^verbatim>\<open>Route("/api", ...)\<close>. In \<open>chained_tree\<close> the second route is declared on the node the
  first call returns: \<^verbatim>\<open>n.Get("/a", h1).With(5, 6).Post("/b", h2)\<close>.
\<close>

definition leaf_tree :: "(nat, nat) RouteNode" where
  "leaf_tree =
     Route (group_node [] [9]) ''/api''
       (\<lambda>n. fst (Post (store_child (fst (Get n ''/a'' (Some 1)))
                          (With (snd (Get n ''/a'' (Some 1))) [5, 6])) ''/b'' (Some 2)))"

definition chained_tree :: "(nat, nat) RouteNode" where
  "chained_tree =
     Route (group_node [] [9]) ''/api''
       (\<lambda>n. store_child (fst (Get n ''/a'' (Some 1)))
              (fst (Post (With (snd (Get n ''/a'' (Some 1))) [5, 6]) ''/b'' (Some 2))))"

text \<open>
  What is wrapped around a registered route (the inline middleware and the handler), and
  what a node carries itself.
\<close>

definition wrapping :: "string \<times> string \<times> 'm list \<times> 'h option \<Rightarrow> 'm list \<times> 'h option" where
  "wrapping e = snd (snd e)"

definition own_wrapping :: "string list \<times> ('h, 'm) RouteNode \<Rightarrow> 'm list \<times> 'h option" where
  "own_wrapping x = (middlewares (snd x), handler (snd x))"

text \<open>
  \<^verbatim>\<open>Route("/a", Route("/b", Get("/c", h)))\<close> and \<^verbatim>\<open>Route("/a/b", Get("/c", h))\<close> on a new
  root.
\<close>

definition abc_tree :: "(nat, nat) RouteNode" where
  "abc_tree = Route root_node ''/a'' (\<lambda>n. Route n ''/b'' (\<lambda>n. fst (Get n ''/c'' (Some 1))))"

definition ab_c_tree :: "(nat, nat) RouteNode" where
  "ab_c_tree = Route root_node ''/a/b'' (\<lambda>n. fst (Get n ''/c'' (Some 1)))"

text \<open>
  Reading a line of the printer back: two spaces, the method up to the next space, the
  path up to the final newline.
\<close>

definition parse_route_line :: "string \<Rightarrow> (string \<times> string) option" where
  "parse_route_line l =
     (let body = butlast (drop 2 l) in
      if take 2 l = ''  '' \<and> 2 < length l \<and> last l = CHR 0x0A \<and> CHR '' '' \<in> set body
      then Some (takeWhile (\<lambda>c. c \<noteq> CHR '' '') body, tl (dropWhile (\<lambda>c. c \<noteq> CHR '' '') body))
      else None)"

text \<open>
  A pattern that begins with a slash and does not end with one; a segment that is empty
  or such a pattern; a dispatcher all of whose patterns are such.
\<close>

definition clean_pattern :: "string \<Rightarrow> bool" where
  "clean_pattern q = (begins_with_slash q \<and> last q \<noteq> CHR ''/'')"

definition clean_segment :: "string \<Rightarrow> bool" where
  "clean_segment s = (s = [] \<or> clean_pattern s)"

fun clean_entry :: "('h, 'm) chi_entry \<Rightarrow> bool"
  and clean_entries :: "('h, 'm) chi_entry list \<Rightarrow> bool" where
  "clean_entry (Handle m q ms h) = clean_pattern q"
| "clean_entry (Mount p sub) = (clean_pattern p \<and> clean_entries sub)"
| "clean_entries [] = True"
| "clean_entries (e # es) = (clean_entry e \<and> clean_entries es)"

text \<open>
  What the dispatcher holds after materializing \<open>leaf_tree\<close>, \<open>chained_tree\<close>,
  \<open>abc_tree\<close> and \<open>ab_c_tree\<close>.
\<close>

definition leaf_tree_mux :: "(nat, nat) chi_entry list" where
  "leaf_tree_mux =
     [Mount ''/api'' [Handle ''GET'' ''/a'' [5, 6] (Some 1), Handle ''POST'' ''/b'' [] (Some 2)]]"

definition chained_tree_mux :: "(nat, nat) chi_entry list" where
  "chained_tree_mux = [Mount ''/api'' [Handle ''GET'' ''/a'' [5, 6] (Some 1)]]"

definition abc_mux :: "(nat, nat) chi_entry list" where
  "abc_mux = [Mount ''/a'' [Mount ''/b'' [Handle ''GET'' ''/c'' [] (Some 1)]]]"

definition ab_c_mux :: "(nat, nat) chi_entry list" where
  "ab_c_mux = [Mount ''/a/b'' [Handle ''GET'' ''/c'' [] (Some 1)]]"

text \<open>
  \<^verbatim>\<open>Route("/api/", Get("/a", h))\<close> with what the dispatcher holds after it,
  \<^verbatim>\<open>Route("api", Get("/a", h))\<close>, and two sibling groups \<^verbatim>\<open>Route("/api", ...)\<close>, on a new root.
\<close>

definition slash_tree :: "(nat, nat) RouteNode" where
  "slash_tree = Route root_node ''/api/'' (\<lambda>n. fst (Get n ''/a'' (Some 1)))"

definition slash_mux :: "(nat, nat) chi_entry list" where
  "slash_mux = [Mount ''/api/'' [Handle ''GET'' ''/a'' [] (Some 1)]]"

definition noslash_tree :: "(nat, nat) RouteNode" where
  "noslash_tree = Route root_node ''api'' (\<lambda>n. fst (Get n ''/a'' (Some 1)))"

definition twice_tree :: "(nat, nat) RouteNode" where
  "twice_tree =
     Route (Route root_node ''/api'' (\<lambda>n. fst (Get n ''/a'' (Some 1))))
       ''/api'' (\<lambda>n. fst (Post n ''/b'' (Some 2)))"

text \<open>The 401 response of the auth interceptor on a writer \<open>w\<close>, with its envelope.\<close>

definition error_envelope :: "string \<Rightarrow> json" where
  "error_envelope msg = JObject [(''success'', JBool False), (''error'', JString msg)]"

definition unauthorized :: "ResponseWriter \<Rightarrow> string \<Rightarrow> ResponseWriter" where
  "unauthorized w msg =
     w\<lparr>rw_Header := (rw_Header w)(''Content-Type'' \<mapsto> [''application/json'']),
       rw_status := Some 401,
       rw_body := rw_body w @ [error_envelope msg]\<rparr>"

definition healthy_envelope :: json where
  "healthy_envelope =
     JObject [(''success'', JBool True), (''data'', JObject [(''status'', JString ''healthy'')])]"

text \<open>Sample values: a response writer nothing was written to, requests, a next handler.\<close>

definition fresh_writer :: ResponseWriter where
  "fresh_writer = \<lparr>rw_Header = Map.empty, rw_status = None, rw_body = []\<rparr>"

definition request_with :: "string list option \<Rightarrow> Request" where
  "request_with v =
     \<lparr>req_Header = Map.empty(''Authorization'' := v), RemoteAddr = ''10.0.0.1:4000''\<rparr>"

definition pass_through :: Handler where
  "pass_through w r lg = (w\<lparr>rw_status := Some 204\<rparr>, lg)"

section \<open>Auxiliary facts\<close>

lemma method_consts_distinct [simp]:
  "GET \<noteq> Undefined" "POST \<noteq> Undefined" "PUT \<noteq> Undefined" "DELETE \<noteq> Undefined"
  "GET \<noteq> POST" "GET \<noteq> PUT" "GET \<noteq> DELETE" "POST \<noteq> PUT" "POST \<noteq> DELETE" "PUT \<noteq> DELETE"
  "Undefined \<noteq> GET" "Undefined \<noteq> POST" "Undefined \<noteq> PUT" "Undefined \<noteq> DELETE"
  "POST \<noteq> GET" "PUT \<noteq> GET" "DELETE \<noteq> GET" "PUT \<noteq> POST" "DELETE \<noteq> POST" "DELETE \<noteq> PUT"
  by (simp_all add: GET_def POST_def PUT_def DELETE_def Undefined_def)

lemma RespondWithJSON_fresh:
  "rw_status w = None \<Longrightarrow>
   RespondWithJSON w status success data errorMsg =
     w\<lparr>rw_Header := (rw_Header w)(''Content-Type'' \<mapsto> [''application/json'']),
       rw_status := Some status,
       rw_body := rw_body w
          @ [Marshal_APIResponse \<lparr>Success = success, Data = data, Error = errorMsg\<rparr>]\<rparr>"
  by (simp add: RespondWithJSON_def Encode_def WriteHeader_def Header_Set_def)

lemma RespondWithJSON_unauthorized:
  "rw_status w = None \<Longrightarrow> msg \<noteq> [] \<Longrightarrow>
   RespondWithJSON w StatusUnauthorized False None msg = unauthorized w msg"
  by (simp add: RespondWithJSON_fresh unauthorized_def error_envelope_def Marshal_APIResponse_def
      StatusUnauthorized_def)

subsection \<open>Both traversals only append\<close>

lemma fold_append_state:
  assumes "\<And>c w. c \<in> set cs \<Longrightarrow> f c w = w @ g c"
  shows "fold f cs w = w @ concat (map g cs)"
  using assms by (induction cs arbitrary: w) simp_all

lemma Buffer_Write_Fprintf:
  "Buffer_Write w (Fprintf_route m p) = (w @ [Fprintf_route m p], False)"
  by (simp add: Buffer_Write_def)

lemma writeRoute_Buffer_append:
  "writeRoute Buffer_Write w n b = w @ writeRoute Buffer_Write [] n b"
proof (induction n arbitrary: w b)
  case (RouteNode cs i ms h)
  have step: "\<And>c w p. c \<in> set cs \<Longrightarrow>
      writeRoute Buffer_Write w c p = w @ writeRoute Buffer_Write [] c p"
    using RouteNode.IH by blast
  have folded: "\<And>w p. fold (\<lambda>child w. writeRoute Buffer_Write w child p) cs w
      = w @ concat (map (\<lambda>c. writeRoute Buffer_Write [] c p) cs)"
    by (rule fold_append_state) (rule step)
  show ?case
    by (simp add: Let_def Buffer_Write_Fprintf folded)
qed

lemma writeRoute_Buffer_unfold:
  "writeRoute Buffer_Write w (RouteNode cs i ms h) b =
     w @ (if \<not> Option.is_none h \<and> info_method i \<noteq> Undefined
          then [Fprintf_route (info_method i) (b @ info_route i)] else [])
       @ concat (map (\<lambda>c. writeRoute Buffer_Write [] c (b @ info_route i)) cs)"
proof -
  have folded: "\<And>w p. fold (\<lambda>child w. writeRoute Buffer_Write w child p) cs w
      = w @ concat (map (\<lambda>c. writeRoute Buffer_Write [] c p) cs)"
    by (rule fold_append_state) (rule writeRoute_Buffer_append)
  show ?thesis
    by (simp add: Let_def Buffer_Write_Fprintf folded)
qed

lemma registerMethod_internal:
  "internal (registerMethodWithMiddleware r node mf p)
     = internal r @ [Handle mf p (middlewares node) (handler node)]"
  "routeTree (registerMethodWithMiddleware r node mf p) = routeTree r"
  by (simp_all add: registerMethodWithMiddleware_def Let_def)

lemma fold_register_state:
  assumes "\<And>c r. c \<in> set cs \<Longrightarrow>
      internal (f c r) = internal r @ g c \<and> routeTree (f c r) = routeTree r"
  shows "internal (fold f cs r) = internal r @ concat (map g cs)
      \<and> routeTree (fold f cs r) = routeTree r"
  using assms by (induction cs arbitrary: r) simp_all

lemma registerWithChi_appends:
  "internal (registerWithChi r n b) = internal r @ internal (registerWithChi emptyWrapper n b)
   \<and> routeTree (registerWithChi r n b) = routeTree r"
proof (induction n arbitrary: r b)
  case (RouteNode cs i ms h)
  have step: "\<And>c r p. c \<in> set cs \<Longrightarrow>
      internal (registerWithChi r c p) = internal r @ internal (registerWithChi emptyWrapper c p)
      \<and> routeTree (registerWithChi r c p) = routeTree r"
    using RouteNode.IH by blast
  have folded: "\<And>r p. internal (fold (\<lambda>child r'. registerWithChi r' child p) cs r)
      = internal r @ concat (map (\<lambda>c. internal (registerWithChi emptyWrapper c p)) cs)
      \<and> routeTree (fold (\<lambda>child r'. registerWithChi r' child p) cs r) = routeTree r"
    by (rule fold_register_state) (rule step)
  show ?case
    by (auto simp add: Let_def folded registerMethod_internal)
qed

lemma registerWithChi_unfold:
  "internal (registerWithChi r (RouteNode cs i ms h) b) =
     internal r @
     (if info_method i = Undefined \<and> Option.is_none h \<and> cs \<noteq> [] \<and> b @ info_route i \<noteq> [] then
        [Mount (b @ info_route i)
           (concat (map (\<lambda>c. internal (registerWithChi emptyWrapper c [])) cs))]
      else if \<not> Option.is_none h then
        (if verb (info_method i) then [Handle (info_method i) (b @ info_route i) ms h] else [])
      else concat (map (\<lambda>c. internal (registerWithChi emptyWrapper c (b @ info_route i))) cs))"
proof -
  have folded: "\<And>r p. internal (fold (\<lambda>child r'. registerWithChi r' child p) cs r)
      = internal r @ concat (map (\<lambda>c. internal (registerWithChi emptyWrapper c p)) cs)"
    using fold_register_state [where f = "\<lambda>child r'. registerWithChi r' child p" for p,
        OF registerWithChi_appends]
    by blast
  show ?thesis
    by (auto simp add: Let_def folded registerMethod_internal verb_def
        GET_def POST_def PUT_def DELETE_def Undefined_def)
qed

subsection \<open>Both traversals by root-to-node paths\<close>

lemma printable_push [simp]: "printable (push_segment s e) = printable e"
  by (simp add: printable_def push_segment_def)

lemma registrable_push [simp]: "registrable (push_segment s e) = registrable e"
  by (simp add: registrable_def push_segment_def)

lemma full_path_push [simp]: "full_path b (push_segment s e) = full_path (b @ s) e"
  by (simp add: full_path_def push_segment_def)

lemma printed_line_push [simp]: "printed_line b (push_segment s e) = printed_line (b @ s) e"
  by (simp add: printed_line_def push_segment_def full_path_def)

lemma registered_route_push [simp]:
  "registered_route b (push_segment s e) = registered_route (b @ s) e"
  by (simp add: registered_route_def push_segment_def full_path_def)

lemma writeRoute_Buffer_paths:
  "writeRoute Buffer_Write [] t b = map (printed_line b) (filter printable (segment_paths t))"
proof (induction t arbitrary: b)
  case (RouteNode cs i ms h)
  have kids: "map (\<lambda>c. writeRoute Buffer_Write [] c (b @ info_route i)) cs
      = map (\<lambda>c. map (printed_line (b @ info_route i)) (filter printable (segment_paths c))) cs"
    using RouteNode.IH by simp
  have own: "(if \<not> Option.is_none h \<and> info_method i \<noteq> Undefined
          then [Fprintf_route (info_method i) (b @ info_route i)] else [])
      = map (printed_line b) (filter printable [([info_route i], RouteNode cs i ms h)])"
    by (simp add: printable_def printed_line_def full_path_def)
  have "writeRoute Buffer_Write [] (RouteNode cs i ms h) b
      = map (printed_line b) (filter printable [([info_route i], RouteNode cs i ms h)])
        @ concat (map (\<lambda>c. map (printed_line (b @ info_route i))
             (filter printable (segment_paths c))) cs)"
    unfolding writeRoute_Buffer_unfold [of "[]"] own kids by simp
  also have "\<dots> = map (printed_line b) (filter printable (segment_paths (RouteNode cs i ms h)))"
    by (simp add: filter_concat map_concat filter_map comp_def)
  finally show ?case .
qed

lemma mux_routes_simps [simp]:
  "mux_routes pre [] = []"
  "mux_routes pre (xs @ ys) = mux_routes pre xs @ mux_routes pre ys"
  "mux_routes pre (Handle m p ms h # xs) = (m, pre @ p, ms, h) # mux_routes pre xs"
  "mux_routes pre (Mount p sub # xs) = mux_routes (pre @ p) sub @ mux_routes pre xs"
  by (simp_all add: mux_routes_def)

lemma mux_routes_concat [simp]:
  "mux_routes pre (concat xss) = concat (map (mux_routes pre) xss)"
  by (induction xss) simp_all

declare registerWithChi.simps [simp del]
declare writeRoute.simps [simp del]

lemma registerWithChi_paths:
  "mux_routes pre (internal (registerWithChi emptyWrapper t b))
     = map (registered_route (pre @ b)) (filter registrable (reachable_paths t))"
proof (induction t arbitrary: pre b)
  case (RouteNode cs i ms h)
  have kids: "\<And>pre b. concat (map (\<lambda>c. mux_routes pre (internal (registerWithChi emptyWrapper c b))) cs)
      = concat (map (\<lambda>c. map (registered_route (pre @ b)) (filter registrable (reachable_paths c))) cs)"
    using RouteNode.IH by (simp cong: map_cong)
  show ?case
  proof (cases "Option.is_none h")
    case False
    then show ?thesis
      by (simp add: registerWithChi_unfold [of emptyWrapper] registrable_def registered_route_def
          full_path_def)
  next
    case True
    have own: "\<not> registrable ([info_route i], RouteNode cs i ms h)"
      using True by (simp add: registrable_def)
    have "mux_routes pre (internal (registerWithChi emptyWrapper (RouteNode cs i ms h) b))
        = concat (map (\<lambda>c. map (registered_route (pre @ b @ info_route i))
             (filter registrable (reachable_paths c))) cs)"
    proof (cases "info_method i = Undefined \<and> cs \<noteq> [] \<and> b @ info_route i \<noteq> []")
      case True
      with \<open>Option.is_none h\<close> show ?thesis
        using kids [of "pre @ b @ info_route i" "[]"]
        by (simp add: registerWithChi_unfold [of emptyWrapper] comp_def del: concat_eq_concat_iff)
    next
      case False
      with \<open>Option.is_none h\<close> show ?thesis
        using kids [of pre "b @ info_route i"]
        by (auto simp add: registerWithChi_unfold [of emptyWrapper] comp_def)
    qed
    also have "\<dots> = map (registered_route (pre @ b))
         (filter registrable (reachable_paths (RouteNode cs i ms h)))"
      using True own by (simp add: filter_concat map_concat filter_map comp_def)
    finally show ?thesis .
  qed
qed

subsection \<open>The builder and the sample trees\<close>

lemma Route_eq:
  "Route n s f = RouteNode (children n @ [f (group_node s [])]) (info n) (middlewares n) (handler n)"
  by (simp add: Route_def newRouteNode_def store_child_def group_node_def Let_def)

lemma leaf_tree_eq:
  "leaf_tree =
     RouteNode
       [RouteNode
         [RouteNode [] \<lparr>info_method = GET, info_route = ''/a''\<rparr> [5, 6] (Some 1),
          RouteNode [] \<lparr>info_method = POST, info_route = ''/b''\<rparr> [] (Some 2)]
         \<lparr>info_method = Undefined, info_route = ''/api''\<rparr> [] None]
       \<lparr>info_method = Undefined, info_route = []\<rparr> [9] None"
  by (simp add: leaf_tree_def Route_eq Get_def Post_def With_def newRouteNode_def
      store_child_def Let_def group_node_def)

lemma chained_tree_eq:
  "chained_tree =
     RouteNode
       [RouteNode
         [RouteNode [RouteNode [] \<lparr>info_method = POST, info_route = ''/b''\<rparr> [] (Some 2)]
            \<lparr>info_method = GET, info_route = ''/a''\<rparr> [5, 6] (Some 1)]
         \<lparr>info_method = Undefined, info_route = ''/api''\<rparr> [] None]
       \<lparr>info_method = Undefined, info_route = []\<rparr> [9] None"
  by (simp add: chained_tree_def Route_eq Get_def Post_def With_def newRouteNode_def
      store_child_def Let_def group_node_def)

lemma chained_tree_printed:
  "writeRoute Buffer_Write [] chained_tree []
     = [Fprintf_route GET ''/api/a'', Fprintf_route POST ''/api/a/b'']"
  by (simp add: chained_tree_eq writeRoute_Buffer_unfold)

subsection \<open>Trees whose handler nodes are leaves\<close>

lemma leaves_paths:
  "handlers_are_leaves t \<Longrightarrow>
     filter registrable (reachable_paths t) = filter printable (segment_paths t)"
proof (induction t)
  case (RouteNode cs i ms h)
  have kids: "concat (map (\<lambda>c. map (push_segment (info_route i))
                 (filter registrable (reachable_paths c))) cs)
      = concat (map (\<lambda>c. map (push_segment (info_route i))
                 (filter printable (segment_paths c))) cs)"
    using RouteNode by (simp add: list_all_iff cong: map_cong)
  show ?case
  proof (cases "Option.is_none h")
    case True
    then have own: "\<not> registrable ([info_route i], RouteNode cs i ms h)"
        "\<not> printable ([info_route i], RouteNode cs i ms h)"
      by (simp_all add: registrable_def printable_def)
    with True show ?thesis
      using kids
      by (simp add: filter_concat filter_map comp_def)
  next
    case False
    with RouteNode.prems have "cs = []" and "verb (info_method i) \<or> info_method i = Undefined"
      by simp_all
    with False show ?thesis
      by (auto simp add: registrable_def printable_def verb_def)
  qed
qed

lemma printed_line_route:
  "printed_line b x = route_line (registered_route b x)"
  by (simp add: printed_line_def route_line_def registered_route_def)

subsection \<open>Middleware of grouping nodes, and nested groups\<close>

lemma register_clear_group_middlewares:
  "registerWithChi r (clear_group_middlewares t) b = registerWithChi r t b"
proof (induction t arbitrary: r b)
  case (RouteNode cs i ms h)
  have folded: "\<And>r p. fold (\<lambda>child r'. registerWithChi r' child p)
        (map clear_group_middlewares cs) r
      = fold (\<lambda>child r'. registerWithChi r' child p) cs r"
    using RouteNode.IH by (simp add: fold_map comp_def cong: fold_cong)
  show ?case
  proof (cases h)
    case None
    then show ?thesis
      by (auto simp add: registerWithChi.simps Let_def folded)
  next
    case (Some f)
    then show ?thesis
      by (simp add: registerWithChi.simps Let_def registerMethodWithMiddleware_def)
  qed
qed

lemma leaf_tree_registered:
  "internal (registerWithChi emptyWrapper leaf_tree [])
     = [Mount ''/api'' [Handle GET ''/a'' [5, 6] (Some 1), Handle POST ''/b'' [] (Some 2)]]"
  by (simp add: leaf_tree_eq registerWithChi_unfold [of emptyWrapper] verb_def)

lemma nest_registrable:
  assumes "verb m"
  shows "filter registrable
           (reachable_paths (Route_nest segs (\<lambda>n. fst (newRouteNode n m p (Some h)))
              (group_node s0 ms)))
         = [(s0 # segs @ [p], RouteNode [] \<lparr>info_method = m, info_route = p\<rparr> [] (Some h))]"
proof (induction segs arbitrary: s0 ms)
  case Nil
  show ?case
    using assms
    by (simp add: newRouteNode_def group_node_def registrable_def push_segment_def Let_def)
next
  case (Cons s ss)
  have "filter registrable (reachable_paths (Route_nest (s # ss)
            (\<lambda>n. fst (newRouteNode n m p (Some h))) (group_node s0 ms)))
      = map (push_segment s0) (filter registrable (reachable_paths
            (Route_nest ss (\<lambda>n. fst (newRouteNode n m p (Some h))) (group_node s []))))"
  proof -
    have own: "\<not> registrable ([s0], RouteNode
          [Route_nest ss (\<lambda>n. fst (newRouteNode n m p (Some h))) (group_node s [])]
          \<lparr>info_method = Undefined, info_route = s0\<rparr> ms None)"
      by (simp add: registrable_def)
    show ?thesis
      using own by (simp add: Route_eq group_node_def [of s0] filter_map comp_def)
  qed
  also have "\<dots> = [(s0 # (s # ss) @ [p],
        RouteNode [] \<lparr>info_method = m, info_route = p\<rparr> [] (Some h))]"
    by (simp add: Cons.IH push_segment_def)
  finally show ?case .
qed

lemma nest_printable:
  assumes "verb m"
  shows "filter printable
           (segment_paths (Route_nest segs (\<lambda>n. fst (newRouteNode n m p (Some h)))
              (group_node s0 ms)))
         = [(s0 # segs @ [p], RouteNode [] \<lparr>info_method = m, info_route = p\<rparr> [] (Some h))]"
proof (induction segs arbitrary: s0 ms)
  case Nil
  have "m \<noteq> Undefined"
    using assms by (auto simp add: verb_def)
  then show ?case
    by (simp add: newRouteNode_def group_node_def printable_def push_segment_def Let_def)
next
  case (Cons s ss)
  have "filter printable (segment_paths (Route_nest (s # ss)
            (\<lambda>n. fst (newRouteNode n m p (Some h))) (group_node s0 ms)))
      = map (push_segment s0) (filter printable (segment_paths
            (Route_nest ss (\<lambda>n. fst (newRouteNode n m p (Some h))) (group_node s []))))"
  proof -
    have own: "\<not> printable ([s0], RouteNode
          [Route_nest ss (\<lambda>n. fst (newRouteNode n m p (Some h))) (group_node s [])]
          \<lparr>info_method = Undefined, info_route = s0\<rparr> ms None)"
      by (simp add: printable_def)
    show ?thesis
      using own by (simp add: Route_eq group_node_def [of s0] filter_map comp_def)
  qed
  also have "\<dots> = [(s0 # (s # ss) @ [p],
        RouteNode [] \<lparr>info_method = m, info_route = p\<rparr> [] (Some h))]"
    by (simp add: Cons.IH push_segment_def)
  finally show ?case .
qed

lemma Route_nest_eta:
  "Route_nest [] f = f"
  "Route_nest (s # ss) f = (\<lambda>n. Route n s (Route_nest ss f))"
  by (rule ext, simp)+

subsection \<open>Printed lines and registered routes\<close>

lemma verb_no_space: "verb m \<Longrightarrow> CHR '' '' \<notin> set m"
  by (auto simp add: verb_def GET_def POST_def PUT_def DELETE_def)

lemma parse_Fprintf_route:
  assumes "CHR '' '' \<notin> set m"
  shows "parse_route_line (Fprintf_route m p) = Some (m, p)"
proof -
  have body: "butlast (drop 2 (Fprintf_route m p)) = m @ CHR '' '' # p"
    by (simp add: Fprintf_route_def butlast_append)
  have tw: "takeWhile (\<lambda>c. c \<noteq> CHR '' '') (m @ CHR '' '' # p) = m"
    using assms by (induction m) auto
  have dw: "dropWhile (\<lambda>c. c \<noteq> CHR '' '') (m @ CHR '' '' # p) = CHR '' '' # p"
    using assms by (induction m) auto
  show ?thesis
    unfolding parse_route_line_def body Let_def tw dw
    by (simp add: Fprintf_route_def)
qed

lemma registered_methods_are_verbs:
  assumes "e \<in> set (mux_routes pre (internal (registerWithChi emptyWrapper t b)))"
  shows "verb (fst e)"
proof -
  from assms obtain x where "registrable x" and "e = registered_route (pre @ b) x"
    unfolding registerWithChi_paths by auto
  then show ?thesis
    by (simp add: registrable_def registered_route_def)
qed

lemma registerWithChi_checked_Inr:
  "registerWithChi_checked accepts r t b = Inr r' \<Longrightarrow> r' = registerWithChi r t b"
  by (auto simp add: registerWithChi_checked_def Let_def split: option.splits)

lemma leaf_tree_listing:
  assumes "handlers_are_leaves t"
  shows "writeRoute Buffer_Write [] t b
     = map route_line (mux_routes [] (internal (registerWithChi emptyWrapper t b)))"
proof -
  have "mux_routes [] (internal (registerWithChi emptyWrapper t b))
      = map (registered_route b) (filter printable (segment_paths t))"
    using registerWithChi_paths [of "[]" t b] leaves_paths [OF assms] by simp
  then show ?thesis
    by (simp add: writeRoute_Buffer_paths comp_def printed_line_route)
qed

lemma leaf_tree_checked:
  "registerWithChi_checked chi_v5_accepts emptyWrapper leaf_tree []
     = Inr \<lparr>internal = leaf_tree_mux, routeTree = None\<rparr>"
  by (simp add: registerWithChi_checked_def leaf_tree_eq registerWithChi.simps leaf_tree_mux_def
      registerMethodWithMiddleware_def begins_with_slash_def mount_prefix_def Let_def)

lemma chained_tree_checked:
  "registerWithChi_checked chi_v5_accepts emptyWrapper chained_tree []
     = Inr \<lparr>internal = chained_tree_mux, routeTree = None\<rparr>"
  by (simp add: registerWithChi_checked_def chained_tree_eq registerWithChi.simps
      chained_tree_mux_def registerMethodWithMiddleware_def begins_with_slash_def
      mount_prefix_def Let_def)

text \<open>
  chi panics on the second of two sub-scopes at \<open>/api\<close>, and on a sub-scope pattern
  without a leading slash.
\<close>

lemma dispatcher_rejections:
  "registerWithChi_checked chi_v5_accepts emptyWrapper twice_tree [] = Inl RegistrationPanic"
  "registerWithChi_checked chi_v5_accepts emptyWrapper noslash_tree [] = Inl RegistrationPanic"
  by (simp_all add: registerWithChi_checked_def twice_tree_def noslash_tree_def Route_eq Get_def
      Post_def newRouteNode_def group_node_def registerWithChi.simps
      registerMethodWithMiddleware_def begins_with_slash_def mount_prefix_def Let_def)

subsection \<open>Routing patterns of a dispatcher with clean patterns\<close>

lemma clean_pattern_append:
  "clean_pattern p \<Longrightarrow> clean_pattern x \<Longrightarrow> mount_prefix p @ tl x = p @ x \<and> clean_pattern (p @ x)"
  by (cases x; cases p) (auto simp add: clean_pattern_def begins_with_slash_def mount_prefix_def)

lemma clean_pattern_not_root: "clean_pattern x \<Longrightarrow> x \<noteq> ''/''"
  by (auto simp add: clean_pattern_def)

lemma clean_patterns_stay_clean:
  fixes e :: "('h, 'm) chi_entry" and es :: "('h, 'm) chi_entry list"
  shows "clean_entry e \<Longrightarrow> x \<in> set (chi_patterns_entry e) \<Longrightarrow> clean_pattern (snd x)"
    and "clean_entries es \<Longrightarrow> x \<in> set (chi_patterns es) \<Longrightarrow> clean_pattern (snd x)"
proof (induction e and es arbitrary: x and x rule: chi_patterns_entry_chi_patterns.induct)
  case (2 p sub)
  then obtain y where y: "y \<in> set (chi_patterns sub)"
    and x: "x = (fst y, mount_prefix p @ tl (snd y)) \<or> (snd y = ''/'' \<and> x = (fst y, p))"
    by (auto split: if_splits)
  from 2 y have "clean_pattern (snd y)" and "clean_pattern p"
    by simp_all
  with x show ?case
    using clean_pattern_append [of p "snd y"] clean_pattern_not_root [of "snd y"] by auto
qed auto

lemma clean_patterns_are_concatenations:
  fixes e :: "('h, 'm) chi_entry" and es :: "('h, 'm) chi_entry list"
  shows "clean_entry e \<Longrightarrow>
     map (\<lambda>x. (fst x, pre @ snd x)) (chi_patterns_entry e) = map route_key (chi_routes pre e)"
    and "clean_entries es \<Longrightarrow>
     map (\<lambda>x. (fst x, pre @ snd x)) (chi_patterns es) = map route_key (mux_routes pre es)"
proof (induction e and es arbitrary: pre and pre rule: chi_patterns_entry_chi_patterns.induct)
  case (1 m q ms h)
  show ?case
    by (simp add: route_key_def)
next
  case (2 p sub)
  then have sub: "clean_entries sub" and p: "clean_pattern p"
    by simp_all
  have each: "(fst x, mount_prefix p @ tl (snd x))
        # (if snd x = ''/'' \<and> mount_prefix p \<noteq> p then [(fst x, p)] else [])
      = [(fst x, p @ snd x)]" if "x \<in> set (chi_patterns sub)" for x
    using clean_patterns_stay_clean(2) [OF sub that] clean_pattern_append [OF p, of "snd x"]
      clean_pattern_not_root [of "snd x"] by simp
  have "chi_patterns_entry (Mount p sub) = map (\<lambda>x. (fst x, p @ snd x)) (chi_patterns sub)"
    using each by (simp add: map_concat cong: map_cong)
  then have "map (\<lambda>x. (fst x, pre @ snd x)) (chi_patterns_entry (Mount p sub))
      = map (\<lambda>x. (fst x, (pre @ p) @ snd x)) (chi_patterns sub)"
    by (simp add: comp_def)
  also have "\<dots> = map route_key (mux_routes (pre @ p) sub)"
    by (rule "2.IH" [OF sub])
  finally show ?case
    by (simp add: mux_routes_def)
next
  case 3
  show ?case
    by simp
next
  case (4 e es)
  then show ?case
    by (simp add: mux_routes_def)
qed

lemma clean_segment_cases:
  "clean_segment s \<Longrightarrow> s \<noteq> [] \<Longrightarrow> clean_pattern s"
  by (simp add: clean_segment_def)

lemma nest_log_clean:
  fixes h :: 'h and ms :: "'m list"
  assumes "verb m" and "clean_pattern p"
  shows "clean_segment s0 \<Longrightarrow> list_all clean_segment segs \<Longrightarrow>
     clean_entries (internal (registerWithChi emptyWrapper
        (Route_nest segs (\<lambda>n. fst (newRouteNode n m p (Some h))) (group_node s0 ms)) []))"
proof (induction segs arbitrary: s0 ms)
  case Nil
  then show ?case
    using assms clean_segment_cases [of s0]
    by (simp add: newRouteNode_def group_node_def Let_def registerWithChi_unfold [of emptyWrapper])
next
  case (Cons s ss)
  have inner: "clean_entries (internal (registerWithChi emptyWrapper
        (Route_nest ss (\<lambda>n. fst (newRouteNode n m p (Some h)))
           (group_node s ([] :: 'm list))) []))"
    using Cons.prems by (intro Cons.IH) simp_all
  show ?case
    using inner clean_segment_cases [of s0] Cons.prems(1)
    by (simp add: Route_eq group_node_def [of s0] registerWithChi_unfold [of emptyWrapper])
qed

lemma nest_routes:
  fixes h :: 'h
  assumes v: "verb m"
  shows "mux_routes [] (internal (registerWithChi emptyWrapper
            (Route_nest segs (\<lambda>n. fst (newRouteNode n m p (Some h)))
               (root_node :: ('h, 'm) RouteNode)) []))
          = [(m, concat segs @ p, [], Some h)]"
proof -
  let ?nest = "Route_nest segs (\<lambda>n. fst (newRouteNode n m p (Some h)))
      (root_node :: ('h, 'm) RouteNode)"
  let ?leaf = "([] # segs @ [p],
      RouteNode [] \<lparr>info_method = m, info_route = p\<rparr> [] (Some h) :: ('h, 'm) RouteNode)"
  have "mux_routes [] (internal (registerWithChi emptyWrapper ?nest []))
      = map (registered_route []) (filter registrable (reachable_paths ?nest))"
    using registerWithChi_paths [of "[]" ?nest "[]"] by simp
  also have "\<dots> = map (registered_route []) [?leaf]"
    by (simp only: nest_registrable [OF v])
  also have "\<dots> = [(m, concat segs @ p, [], Some h)]"
    by (simp add: registered_route_def full_path_def)
  finally show ?thesis .
qed

lemma abc_tree_nest:
  "abc_tree
      = Route_nest [''/a'', ''/b''] (\<lambda>n. fst (newRouteNode n GET ''/c'' (Some 1))) root_node"
  "ab_c_tree
      = Route_nest [''/a/b''] (\<lambda>n. fst (newRouteNode n GET ''/c'' (Some 1))) root_node"
  by (simp_all add: abc_tree_def ab_c_tree_def Get_def Route_nest_eta)

lemma abc_tree_checked:
  "registerWithChi_checked chi_v5_accepts emptyWrapper abc_tree []
     = Inr \<lparr>internal = abc_mux, routeTree = None\<rparr>"
  "registerWithChi_checked chi_v5_accepts emptyWrapper ab_c_tree []
     = Inr \<lparr>internal = ab_c_mux, routeTree = None\<rparr>"
  by (simp_all add: registerWithChi_checked_def abc_tree_def ab_c_tree_def abc_mux_def
      ab_c_mux_def Route_eq Get_def newRouteNode_def group_node_def registerWithChi.simps
      registerMethodWithMiddleware_def begins_with_slash_def mount_prefix_def Let_def)

section \<open>The lifecycle after the tree is discarded\<close>

text \<open>
  C10. After \<open>ClearRouteTree\<close> has run, traversing or materializing the tree through the
  router wrapper fails deterministically: \<open>WriteRoutes\<close> and \<open>SetupRoutes\<close> both
  dereference the nil tree pointer first and panic, with any writer, routing context and
  configuration, and nothing is printed or registered.
\<close>

theorem cleared_tree_panics:
  "WriteRoutes wr (ClearRouteTree r) writer = Inl NilPointerDereference
   \<and> SetupRoutes (ClearRouteTree r') context' cfg = Inl NilPointerDereference"
  by (simp add: WriteRoutes_def SetupRoutes_def ClearRouteTree_def)

section \<open>The auth interceptor\<close>

text \<open>
  C7, as the code has it. On a response writer nothing was written to yet, with shared
  secret \<open>s\<close>: when the value \<^verbatim>\<open>Header.Get("Authorization")\<close> returns is \<open>''Bearer '' @ s\<close>, the
  interceptor is the next handler; when that value is empty (the header is absent, or its
  first value is the empty string), the answer is 401 with error \<open>Missing API Key\<close>;
  when it is not empty and not prefixed by \<open>''Bearer ''\<close>, 401 with
  \<open>Invalid Authorization format.\<close>; when it is \<open>''Bearer '' @ k\<close> with \<open>k \<noteq> s\<close>, 401 with
  \<open>Invalid API Key\<close>.
\<close>

theorem auth_interceptor:
  assumes fresh: "rw_status w = None"
  shows "(Header_Get (req_Header r) ''Authorization'' = ''Bearer '' @ s
            \<longrightarrow> MiddlewareAPIAuth s next' w r lg = next' w r lg)
       \<and> (Header_Get (req_Header r) ''Authorization'' = []
            \<longrightarrow> fst (MiddlewareAPIAuth s next' w r lg) = unauthorized w ''Missing API Key'')
       \<and> (Header_Get (req_Header r) ''Authorization'' \<noteq> []
            \<and> \<not> HasPrefix (Header_Get (req_Header r) ''Authorization'') ''Bearer ''
            \<longrightarrow> fst (MiddlewareAPIAuth s next' w r lg)
                 = unauthorized w ''Invalid Authorization format.'')
       \<and> (Header_Get (req_Header r) ''Authorization'' = ''Bearer '' @ k \<and> k \<noteq> s
            \<longrightarrow> fst (MiddlewareAPIAuth s next' w r lg) = unauthorized w ''Invalid API Key'')"
proof (intro conjI impI)
  assume "Header_Get (req_Header r) ''Authorization'' = ''Bearer '' @ s"
  then show "MiddlewareAPIAuth s next' w r lg = next' w r lg"
    by (simp add: MiddlewareAPIAuth_def ConstantTimeCompare_def Let_def HasPrefix_def
        TrimPrefix_def)
next
  assume "Header_Get (req_Header r) ''Authorization'' = []"
  then show "fst (MiddlewareAPIAuth s next' w r lg) = unauthorized w ''Missing API Key''"
    by (simp add: MiddlewareAPIAuth_def RespondWithJSON_unauthorized fresh)
next
  assume "Header_Get (req_Header r) ''Authorization'' \<noteq> []
     \<and> \<not> HasPrefix (Header_Get (req_Header r) ''Authorization'') ''Bearer ''"
  then show "fst (MiddlewareAPIAuth s next' w r lg)
      = unauthorized w ''Invalid Authorization format.''"
    by (simp add: MiddlewareAPIAuth_def RespondWithJSON_unauthorized fresh)
next
  assume "Header_Get (req_Header r) ''Authorization'' = ''Bearer '' @ k \<and> k \<noteq> s"
  then show "fst (MiddlewareAPIAuth s next' w r lg) = unauthorized w ''Invalid API Key''"
    by (simp add: MiddlewareAPIAuth_def RespondWithJSON_unauthorized fresh
        ConstantTimeCompare_def Let_def HasPrefix_def TrimPrefix_def)
qed

text \<open>
  The four cases of C7 at the secret \<open>s3cret\<close>: \<open>Bearer s3cret\<close> reaches the next handler,
  no header gives \<open>Missing API Key\<close>, \<open>Token s3cret\<close> gives
  \<open>Invalid Authorization format.\<close>, \<open>Bearer wrong\<close> gives \<open>Invalid API Key\<close>.
\<close>

theorem auth_interceptor_witness:
  "MiddlewareAPIAuth ''s3cret'' pass_through fresh_writer
       (request_with (Some [''Bearer s3cret''])) []
      = (fresh_writer\<lparr>rw_status := Some 204\<rparr>, [])
   \<and> fst (MiddlewareAPIAuth ''s3cret'' pass_through fresh_writer (request_with None) [])
      = unauthorized fresh_writer ''Missing API Key''
   \<and> fst (MiddlewareAPIAuth ''s3cret'' pass_through fresh_writer
        (request_with (Some [''Token s3cret''])) [])
      = unauthorized fresh_writer ''Invalid Authorization format.''
   \<and> fst (MiddlewareAPIAuth ''s3cret'' pass_through fresh_writer
        (request_with (Some [''Bearer wrong''])) [])
      = unauthorized fresh_writer ''Invalid API Key''"
proof -
  have f: "rw_status fresh_writer = None"
    by (simp add: fresh_writer_def)
  have a: "Header_Get (req_Header (request_with (Some [''Bearer s3cret''])))  ''Authorization''
      = ''Bearer '' @ ''s3cret''"
    by (simp add: Header_Get_def request_with_def)
  have b: "Header_Get (req_Header (request_with None)) ''Authorization'' = []"
    by (simp add: Header_Get_def request_with_def)
  have c: "Header_Get (req_Header (request_with (Some [''Token s3cret'']))) ''Authorization'' \<noteq> []
     \<and> \<not> HasPrefix (Header_Get (req_Header (request_with (Some [''Token s3cret''])))
            ''Authorization'') ''Bearer ''"
    by (simp add: Header_Get_def request_with_def HasPrefix_def)
  have d: "Header_Get (req_Header (request_with (Some [''Bearer wrong'']))) ''Authorization''
      = ''Bearer '' @ ''wrong'' \<and> ''wrong'' \<noteq> ''s3cret''"
    by (simp add: Header_Get_def request_with_def)
  from auth_interceptor [OF f, of "request_with (Some [''Bearer s3cret''])" "''s3cret''"
      pass_through "[]"] a
  have 1: "MiddlewareAPIAuth ''s3cret'' pass_through fresh_writer
       (request_with (Some [''Bearer s3cret''])) []
      = (fresh_writer\<lparr>rw_status := Some 204\<rparr>, [])"
    by (simp add: pass_through_def)
  from auth_interceptor [OF f, of "request_with None" "''s3cret''" pass_through "[]"] b
  have 2: "fst (MiddlewareAPIAuth ''s3cret'' pass_through fresh_writer (request_with None) [])
      = unauthorized fresh_writer ''Missing API Key''"
    by blast
  from auth_interceptor [OF f, of "request_with (Some [''Token s3cret''])" "''s3cret''"
      pass_through "[]"] c
  have 3: "fst (MiddlewareAPIAuth ''s3cret'' pass_through fresh_writer
        (request_with (Some [''Token s3cret''])) [])
      = unauthorized fresh_writer ''Invalid Authorization format.''"
    by blast
  from auth_interceptor [OF f, of "request_with (Some [''Bearer wrong''])" "''s3cret''"
      pass_through "[]" "''wrong''"] d
  have 4: "fst (MiddlewareAPIAuth ''s3cret'' pass_through fresh_writer
        (request_with (Some [''Bearer wrong''])) [])
      = unauthorized fresh_writer ''Invalid API Key''"
    by blast
  from 1 2 3 4 show ?thesis by blast
qed

text \<open>
  C7 as stated fails for a header that is present with an empty value: it is present and
  not prefixed by \<open>''Bearer ''\<close>, and the answer is \<open>Missing API Key\<close>, not
  \<open>Invalid Authorization format.\<close>
\<close>

theorem auth_empty_header_counterexample:
  "req_Header (request_with (Some [[]])) ''Authorization'' \<noteq> None
   \<and> \<not> HasPrefix (Header_Get (req_Header (request_with (Some [[]]))) ''Authorization'')
        ''Bearer ''
   \<and> fst (MiddlewareAPIAuth ''s3cret'' pass_through fresh_writer (request_with (Some [[]])) [])
       = unauthorized fresh_writer ''Missing API Key''
   \<and> unauthorized fresh_writer ''Missing API Key''
       \<noteq> unauthorized fresh_writer ''Invalid Authorization format.''"
  by (simp add: request_with_def Header_Get_def HasPrefix_def MiddlewareAPIAuth_def
      RespondWithJSON_unauthorized fresh_writer_def unauthorized_def error_envelope_def)

section \<open>The health route\<close>

text \<open>
  C2, as the code has it. \<open>SetupRoutes\<close> on a new router with no feature modules returns
  normally, and the dispatcher then holds exactly one route: \<open>GET /health\<close>, with no
  inline middleware and the health handler. The handler is attached to the root, not to
  the \<open>/api/v1\<close> group (which has no children and registers nothing), so the full path
  is \<open>/health\<close>. On a response writer nothing was written to, the handler answers with
  status 200, content type \<open>application/json\<close> and the envelope
  \<^verbatim>\<open>{"success": true, "data": {"status": "healthy"}}\<close>.
\<close>

theorem health_route_at_root:
  "(\<exists>r. SetupRoutes (New cfg) \<lparr>Providers = []\<rparr> cfg = Inr r
        \<and> mux_routes [] (internal r) = [(''GET'', ''/health'', [], Some healthHandler)])
   \<and> (rw_status w = None \<longrightarrow>
        healthHandler w req lg =
          (w\<lparr>rw_Header := (rw_Header w)(''Content-Type'' \<mapsto> [''application/json'']),
             rw_status := Some 200,
             rw_body := rw_body w @ [healthy_envelope]\<rparr>, lg))"
proof (intro conjI impI)
  have "SetupRoutes (New cfg) \<lparr>Providers = []\<rparr> cfg
      = Inr \<lparr>internal = [Handle ''GET'' ''/health'' [] (Some healthHandler)],
             routeTree = Some [RouteNode [group_node ''/api/v1'' [],
                 RouteNode [] \<lparr>info_method = GET, info_route = ''/health''\<rparr> []
                   (Some healthHandler)]
                 \<lparr>info_method = Undefined, info_route = []\<rparr> [] None]\<rparr>"
    by (simp add: registerWithChi.simps SetupRoutes_def New_def Route_def Get_def newRouteNode_def store_child_def
        apiRoot_def registerMethodWithMiddleware_def Let_def group_node_def)
  then show "\<exists>r. SetupRoutes (New cfg) \<lparr>Providers = []\<rparr> cfg = Inr r
        \<and> mux_routes [] (internal r) = [(''GET'', ''/health'', [], Some healthHandler)]"
    by (simp add: mux_routes_def)
next
  assume "rw_status w = None"
  then show "healthHandler w req lg =
          (w\<lparr>rw_Header := (rw_Header w)(''Content-Type'' \<mapsto> [''application/json'']),
             rw_status := Some 200,
             rw_body := rw_body w @ [healthy_envelope]\<rparr>, lg)"
    by (simp add: healthHandler_def RespondWithJSON_fresh Marshal_APIResponse_def StatusOK_def
        healthy_envelope_def)
qed

text \<open>The health handler of C2 on a new response writer.\<close>

theorem health_route_at_root_witness:
  "rw_status fresh_writer = None
   \<and> healthHandler fresh_writer (request_with None) [] =
       (\<lparr>rw_Header = [''Content-Type'' \<mapsto> [''application/json'']], rw_status = Some 200,
         rw_body = [healthy_envelope]\<rparr>, [])"
  using health_route_at_root [of "()" fresh_writer "request_with None" "[]"]
  by (simp add: fresh_writer_def)

text \<open>
  C2 as stated fails: with no feature modules, \<open>SetupRoutes\<close> registers no route at
  \<open>/api/v1/health\<close>; the only registered pair is \<open>GET /health\<close>.
\<close>

theorem health_not_under_api_counterexample:
  "(case SetupRoutes (New ()) \<lparr>Providers = []\<rparr> () of
      Inl e \<Rightarrow> False
    | Inr r \<Rightarrow> (GET, ''/api/v1/health'') \<notin> set (map route_key (mux_routes [] (internal r)))
        \<and> map route_key (mux_routes [] (internal r)) = [(GET, ''/health'')])"
  by (simp add: registerWithChi.simps SetupRoutes_def New_def Route_def Get_def newRouteNode_def store_child_def
      apiRoot_def registerMethodWithMiddleware_def Let_def mux_routes_def route_key_def GET_def)

section \<open>Construction of nodes\<close>

text \<open>
  C4, as the code has it. \<open>newRouteNode\<close> has no failure path and validates nothing: for
  every method, pattern and handler, nil or not, it appends one childless node carrying
  exactly these to the parent and returns it. The node is well formed exactly when the
  method is \<open>Undefined\<close> if and only if the handler is nil. A node that is not well
  formed stays in the tree; as constructed, the materializer registers nothing for it and
  the printer prints nothing for it.
\<close>

theorem newRouteNode_never_rejects:
  "newRouteNode n m p h =
      (RouteNode (children n @ [RouteNode [] \<lparr>info_method = m, info_route = p\<rparr> [] h])
         (info n) (middlewares n) (handler n),
       RouteNode [] \<lparr>info_method = m, info_route = p\<rparr> [] h)
   \<and> wellformed_node (snd (newRouteNode n m p h)) = ((m = Undefined) = (h = None))
   \<and> (\<not> wellformed_node (snd (newRouteNode n m p h)) \<longrightarrow>
        registerWithChi r (snd (newRouteNode n m p h)) b = r
        \<and> writeRoute wr w (snd (newRouteNode n m p h)) b = w)"
  by (cases h) (auto simp add: registerWithChi.simps writeRoute.simps newRouteNode_def wellformed_node_def
      Let_def Option.is_none_def)

text \<open>C4 at \<^verbatim>\<open>root.Get("/x", nil)\<close>: the node is not well formed, and is skipped.\<close>

theorem newRouteNode_never_rejects_witness:
  "\<not> wellformed_node (snd (Get (root_node :: (nat, nat) RouteNode) ''/x'' None))
   \<and> registerWithChi emptyWrapper (snd (Get (root_node :: (nat, nat) RouteNode) ''/x'' None)) []
       = emptyWrapper
   \<and> writeRoute Buffer_Write [] (snd (Get (root_node :: (nat, nat) RouteNode) ''/x'' None)) []
       = []"
  using newRouteNode_never_rejects [of "root_node :: (nat, nat) RouteNode" GET "''/x''" None
      emptyWrapper "[]" Buffer_Write "[]"]
  by (simp add: Get_def newRouteNode_def wellformed_node_def group_node_def Let_def)

text \<open>
  C4 as stated fails: \<^verbatim>\<open>root.Get("/x", nil)\<close> returns a \<open>GET\<close> node with a nil handler, now
  a child of the root, and \<open>newRouteNode\<close> accepts an \<open>Undefined\<close> node with a handler
  into the children just as well.
\<close>

theorem illformed_node_accepted_counterexample:
  "Get (root_node :: (nat, nat) RouteNode) ''/x'' None
     = (RouteNode [RouteNode [] \<lparr>info_method = GET, info_route = ''/x''\<rparr> [] None]
          \<lparr>info_method = Undefined, info_route = []\<rparr> [] None,
        RouteNode [] \<lparr>info_method = GET, info_route = ''/x''\<rparr> [] None)
   \<and> \<not> wellformed_node (snd (Get (root_node :: (nat, nat) RouteNode) ''/x'' None))
   \<and> \<not> wellformed_node
        (snd (newRouteNode (root_node :: (nat, nat) RouteNode) Undefined ''/g'' (Some 7)))
   \<and> snd (newRouteNode (root_node :: (nat, nat) RouteNode) Undefined ''/g'' (Some 7))
       \<in> set (children
            (fst (newRouteNode (root_node :: (nat, nat) RouteNode) Undefined ''/g'' (Some 7))))"
  by (simp add: Get_def newRouteNode_def group_node_def wellformed_node_def Let_def)

section \<open>Printer and materializer\<close>

text \<open>
  C1, as the code has it. Take a route tree in which every handler-carrying node is a
  leaf with one of the five method constants, a dispatcher with nothing registered yet,
  and any behaviour \<open>accepts\<close> of the dispatcher. When the materialization completes (the
  dispatcher accepts every registration call, none panics), the (method, full path) pairs
  read off the lines the printer writes are exactly the pairs of the routes registered
  with the dispatcher, a sub-scope at \<open>P\<close> with a child at \<open>Q\<close> counting as \<open>P @ Q\<close>.
\<close>

theorem printer_agrees_on_leaf_trees:
  assumes leaves: "handlers_are_leaves t"
    and empty: "internal r = []"
    and accepted: "registerWithChi_checked accepts r t b = Inr r'"
  shows "parse_route_line ` set (writeRoute Buffer_Write [] t b)
           = Some ` route_key ` set (mux_routes [] (internal r'))"
proof -
  let ?R = "mux_routes [] (internal (registerWithChi emptyWrapper t b))"
  have r': "internal r' = internal (registerWithChi emptyWrapper t b)"
    using registerWithChi_checked_Inr [OF accepted] registerWithChi_appends [of r t b] empty
    by simp
  have line: "parse_route_line (route_line e) = Some (route_key e)" if "e \<in> set ?R" for e
    using parse_Fprintf_route [OF verb_no_space [OF registered_methods_are_verbs [OF that]]]
    by (simp add: route_line_def route_key_def)
  have "parse_route_line ` set (writeRoute Buffer_Write [] t b)
      = (\<lambda>e. parse_route_line (route_line e)) ` set ?R"
    by (simp add: leaf_tree_listing [OF leaves] image_image)
  also have "\<dots> = (\<lambda>e. Some (route_key e)) ` set ?R"
    by (rule image_cong [OF refl]) (rule line)
  also have "\<dots> = Some ` route_key ` set ?R"
    by (simp add: image_image)
  finally show ?thesis
    by (simp add: r')
qed

text \<open>
  C1 on \<open>leaf_tree\<close>, with chi's checks: the materialization completes, the printer
  writes \<open>GET /api/a\<close> and \<open>POST /api/b\<close>, and these are the registered pairs.
\<close>

theorem printer_agrees_on_leaf_trees_witness:
  "handlers_are_leaves leaf_tree
   \<and> registerWithChi_checked chi_v5_accepts emptyWrapper leaf_tree []
       = Inr \<lparr>internal = leaf_tree_mux, routeTree = None\<rparr>
   \<and> writeRoute Buffer_Write [] leaf_tree [] = [''  GET /api/a\<newline>'', ''  POST /api/b\<newline>'']
   \<and> parse_route_line ` set (writeRoute Buffer_Write [] leaf_tree [])
       = {Some (''GET'', ''/api/a''), Some (''POST'', ''/api/b'')}
   \<and> Some ` route_key ` set (mux_routes [] leaf_tree_mux)
       = {Some (''GET'', ''/api/a''), Some (''POST'', ''/api/b'')}"
proof -
  have l: "handlers_are_leaves leaf_tree"
    by (simp add: leaf_tree_eq verb_def)
  have e: "internal (emptyWrapper :: (nat, nat) routerWrapped) = []"
    by simp
  have p: "writeRoute Buffer_Write [] leaf_tree []
      = [''  GET /api/a\<newline>'', ''  POST /api/b\<newline>'']"
    by (simp add: leaf_tree_eq writeRoute_Buffer_unfold Fprintf_route_def GET_def POST_def
        Undefined_def)
  have k: "Some ` route_key ` set (mux_routes [] leaf_tree_mux)
       = {Some (''GET'', ''/api/a''), Some (''POST'', ''/api/b'')}"
    by (simp add: route_key_def leaf_tree_mux_def)
  from printer_agrees_on_leaf_trees [OF l e leaf_tree_checked] l leaf_tree_checked p k
  show ?thesis
    by simp
qed

text \<open>
  C1 as stated fails on \<open>chained_tree\<close>: the materialization completes, the printer
  lists \<open>GET /api/a\<close> and \<open>POST /api/a/b\<close>, the dispatcher holds \<open>GET /api/a\<close> only.
\<close>

theorem printer_diverges_counterexample:
  "registerWithChi_checked chi_v5_accepts emptyWrapper chained_tree []
     = Inr \<lparr>internal = chained_tree_mux, routeTree = None\<rparr>
   \<and> writeRoute Buffer_Write [] chained_tree []
       = [''  GET /api/a\<newline>'', ''  POST /api/a/b\<newline>'']
   \<and> parse_route_line ''  POST /api/a/b\<newline>'' = Some (''POST'', ''/api/a/b'')
   \<and> map route_key (mux_routes [] chained_tree_mux) = [(''GET'', ''/api/a'')]
   \<and> parse_route_line ` set (writeRoute Buffer_Write [] chained_tree [])
       \<noteq> Some ` route_key ` set (mux_routes [] chained_tree_mux)"
proof -
  have p: "writeRoute Buffer_Write [] chained_tree []
      = [''  GET /api/a\<newline>'', ''  POST /api/a/b\<newline>'']"
    by (simp add: chained_tree_printed Fprintf_route_def GET_def POST_def)
  have q: "parse_route_line ''  POST /api/a/b\<newline>'' = Some (''POST'', ''/api/a/b'')"
    by (simp add: parse_route_line_def)
  have g: "parse_route_line ''  GET /api/a\<newline>'' = Some (''GET'', ''/api/a'')"
    by (simp add: parse_route_line_def)
  show ?thesis
    by (simp add: chained_tree_checked p q g route_key_def chained_tree_mux_def)
qed

text \<open>
  C6. For every node with a non-nil handler: the materializer does for it exactly what it
  does for the same node without children, so nothing below it is registered; what it
  registers is the node's own route when the method is one of the four verbs, and
  nothing otherwise; the printer writes the node's line (unless the method is
  \<open>Undefined\<close>) and then everything it prints for each child under the extended path.
\<close>

theorem handler_node_children_skipped:
  "registerWithChi r (RouteNode cs i ms (Some h)) b
      = registerWithChi r (RouteNode [] i ms (Some h)) b
   \<and> mux_routes [] (internal (registerWithChi emptyWrapper (RouteNode cs i ms (Some h)) b))
      = (if verb (info_method i) then [(info_method i, b @ info_route i, ms, Some h)] else [])
   \<and> writeRoute Buffer_Write [] (RouteNode cs i ms (Some h)) b
      = (if info_method i \<noteq> Undefined
         then [Fprintf_route (info_method i) (b @ info_route i)] else [])
        @ concat (map (\<lambda>c. writeRoute Buffer_Write [] c (b @ info_route i)) cs)"
proof (intro conjI)
  show "registerWithChi r (RouteNode cs i ms (Some h)) b
      = registerWithChi r (RouteNode [] i ms (Some h)) b"
    by (simp add: registerWithChi.simps registerMethodWithMiddleware_def Let_def)
  show "mux_routes [] (internal (registerWithChi emptyWrapper (RouteNode cs i ms (Some h)) b))
      = (if verb (info_method i) then [(info_method i, b @ info_route i, ms, Some h)] else [])"
    by (simp add: registerWithChi_unfold [of emptyWrapper])
  show "writeRoute Buffer_Write [] (RouteNode cs i ms (Some h)) b
      = (if info_method i \<noteq> Undefined
         then [Fprintf_route (info_method i) (b @ info_route i)] else [])
        @ concat (map (\<lambda>c. writeRoute Buffer_Write [] c (b @ info_route i)) cs)"
    by (simp add: writeRoute_Buffer_unfold [of "[]"])
qed

text \<open>
  C6 on a \<open>GET /a\<close> node with a \<open>POST /b\<close> child, under the base path \<open>/api\<close>:
  one registration, two printed lines.
\<close>

theorem handler_node_children_skipped_witness:
  "mux_routes []
     (internal (registerWithChi emptyWrapper
        (RouteNode [RouteNode [] \<lparr>info_method = POST, info_route = ''/b''\<rparr> [] (Some 2)]
           \<lparr>info_method = GET, info_route = ''/a''\<rparr> [5, 6] (Some (1::nat))) ''/api''))
     = [(GET, ''/api/a'', [5, 6::nat], Some 1)]
   \<and> writeRoute Buffer_Write []
        (RouteNode [RouteNode [] \<lparr>info_method = POST, info_route = ''/b''\<rparr> [] (Some 2)]
           \<lparr>info_method = GET, info_route = ''/a''\<rparr> [5, 6] (Some (1::nat))) ''/api''
     = [Fprintf_route GET ''/api/a'', Fprintf_route POST ''/api/a/b'']"
  using handler_node_children_skipped [of emptyWrapper
      "[RouteNode [] \<lparr>info_method = POST, info_route = ''/b''\<rparr> [] (Some 2)]"
      "\<lparr>info_method = GET, info_route = ''/a''\<rparr>" "[5, 6::nat]" "1::nat" "''/api''"]
  by (simp add: verb_def writeRoute_Buffer_unfold [of "[]"]
      registerWithChi_unfold [of emptyWrapper])

text \<open>
  C9. When the router holds a tree, \<open>WriteRoutes\<close> returns normally and leaves the
  router (its tree included) as it was, with any writer; on the in-memory sink it appends
  one fixed list of lines, whatever the sink already holds, so a second invocation
  appends the same output again.
\<close>

theorem WriteRoutes_pure:
  assumes t: "routeTree r = Some (root # rest)"
  shows "(\<exists>out. \<forall>w. WriteRoutes Buffer_Write r w = Inr (r, w @ out))
       \<and> (\<forall>wr w. \<exists>w'. WriteRoutes wr r w = Inr (r, w'))"
proof (intro conjI exI allI)
  fix w
  have "WriteRoutes Buffer_Write r w = Inr (r, writeRoute Buffer_Write w root [])"
    using t by (simp add: WriteRoutes_def)
  also have "writeRoute Buffer_Write w root [] = w @ writeRoute Buffer_Write [] root []"
    by (rule writeRoute_Buffer_append)
  finally show "WriteRoutes Buffer_Write r w = Inr (r, w @ writeRoute Buffer_Write [] root [])" .
next
  fix wr :: "'c \<Rightarrow> string \<Rightarrow> 'c \<times> bool" and w :: 'c
  show "WriteRoutes wr r w = Inr (r, writeRoute wr w root [])"
    using t by (simp add: WriteRoutes_def)
qed

text \<open>C9 on \<open>leaf_tree\<close>: the second run appends the same two lines.\<close>

theorem WriteRoutes_pure_witness:
  "WriteRoutes Buffer_Write \<lparr>internal = [], routeTree = Some [leaf_tree]\<rparr> []
     = Inr (\<lparr>internal = [], routeTree = Some [leaf_tree]\<rparr>,
            [Fprintf_route GET ''/api/a'', Fprintf_route POST ''/api/b''])
   \<and> WriteRoutes Buffer_Write \<lparr>internal = [], routeTree = Some [leaf_tree]\<rparr>
        [Fprintf_route GET ''/api/a'', Fprintf_route POST ''/api/b'']
     = Inr (\<lparr>internal = [], routeTree = Some [leaf_tree]\<rparr>,
            [Fprintf_route GET ''/api/a'', Fprintf_route POST ''/api/b'',
             Fprintf_route GET ''/api/a'', Fprintf_route POST ''/api/b''])"
proof -
  have t: "routeTree \<lparr>internal = [], routeTree = Some [leaf_tree]\<rparr> = Some (leaf_tree # [])"
    by simp
  obtain out where o: "\<And>w. WriteRoutes Buffer_Write \<lparr>internal = [], routeTree = Some [leaf_tree]\<rparr> w
     = Inr (\<lparr>internal = [], routeTree = Some [leaf_tree]\<rparr>, w @ out)"
    using WriteRoutes_pure [OF t, where ?'c = "string list"] by blast
  have "WriteRoutes Buffer_Write \<lparr>internal = [], routeTree = Some [leaf_tree]\<rparr> []
     = Inr (\<lparr>internal = [], routeTree = Some [leaf_tree]\<rparr>,
            [Fprintf_route GET ''/api/a'', Fprintf_route POST ''/api/b''])"
    by (simp add: WriteRoutes_def leaf_tree_eq writeRoute_Buffer_unfold)
  with o [of "[]"] have "out = [Fprintf_route GET ''/api/a'', Fprintf_route POST ''/api/b'']"
    by simp
  with o show ?thesis by simp
qed

section \<open>Middleware scoping and path concatenation\<close>

text \<open>
  C3. The inline middleware and handler of the routes the materializer registers are, in
  order, the own middleware list and handler of the handler-carrying nodes it reaches;
  the middleware of handler-less nodes (the grouping ancestors) never matters, since the
  materializer does the same on the tree with all of it removed; and \<open>With\<close> appends,
  so \<^verbatim>\<open>n.Get(p, h).With(ms1...).With(ms2...)\<close> is registered with \<open>ms1 @ ms2\<close>.
\<close>

theorem own_middleware_only:
  "map wrapping (mux_routes pre (internal (registerWithChi emptyWrapper t b)))
      = map own_wrapping (filter registrable (reachable_paths t))
   \<and> registerWithChi r (clear_group_middlewares t) b = registerWithChi r t b
   \<and> internal (registerWithChi r (With (With (snd (Get n p (Some h))) ms1) ms2) b)
      = internal r @ [Handle ''GET'' (b @ p) (ms1 @ ms2) (Some h)]"
proof (intro conjI)
  show "map wrapping (mux_routes pre (internal (registerWithChi emptyWrapper t b)))
      = map own_wrapping (filter registrable (reachable_paths t))"
    by (simp add: registerWithChi_paths comp_def wrapping_def own_wrapping_def
        registered_route_def)
  show "registerWithChi r (clear_group_middlewares t) b = registerWithChi r t b"
    by (rule register_clear_group_middlewares)
  show "internal (registerWithChi r (With (With (snd (Get n p (Some h))) ms1) ms2) b)
      = internal r @ [Handle ''GET'' (b @ p) (ms1 @ ms2) (Some h)]"
    by (simp add: With_def Get_def newRouteNode_def registerWithChi_unfold verb_def Let_def)
      (simp add: GET_def)
qed

text \<open>
  C3 on \<open>leaf_tree\<close>: the root carries middleware \<open>[9]\<close>, and the two routes are
  registered with \<open>[5, 6]\<close> and with nothing.
\<close>

theorem own_middleware_only_witness:
  "map wrapping (mux_routes [] (internal (registerWithChi emptyWrapper leaf_tree [])))
     = [([5, 6], Some 1), ([], Some 2)]
   \<and> middlewares leaf_tree = [9]
   \<and> registerWithChi emptyWrapper (clear_group_middlewares leaf_tree) []
     = registerWithChi emptyWrapper leaf_tree []"
  using own_middleware_only [of "[]" leaf_tree "[]" emptyWrapper]
  by (simp add: leaf_tree_registered wrapping_def) (simp add: leaf_tree_eq)

text \<open>
  C5, as the code has it. For every tree and base path, the path on each line the
  printer writes is the base path followed by the plain concatenation of the path
  segments from the root to the node, nothing inserted. For a leaf with a handler and one
  of the four verbs declared under any number of nested \<open>Route\<close> groups on a new root:
  when every grouping segment is empty or begins with a slash and does not end with one,
  the leaf segment begins with a slash and does not end with one, and the dispatcher
  accepts the registrations (whatever its checks are), the dispatcher reaches the leaf's
  handler under exactly one pattern, the plain concatenation of the segments, which is
  also what the printer writes. So the path depends on the segments only through their
  concatenation.
\<close>

theorem full_path_is_concatenation:
  fixes t :: "('h, 'm) RouteNode" and h :: 'h and r' :: "('h, 'm) routerWrapped"
  shows "writeRoute Buffer_Write [] t b
      = map (\<lambda>x. ''  '' @ info_method (info (snd x)) @ '' '' @ b @ concat (fst x) @ ''\<newline>'')
          (filter printable (segment_paths t))
   \<and> (verb m \<and> list_all clean_segment segs \<and> clean_pattern p
        \<and> registerWithChi_checked accepts emptyWrapper
             (Route_nest segs (\<lambda>n. fst (newRouteNode n m p (Some h)))
                (root_node :: ('h, 'm) RouteNode)) [] = Inr r'
      \<longrightarrow> set (chi_patterns (internal r')) = {(m, concat segs @ p)}
        \<and> writeRoute Buffer_Write []
             (Route_nest segs (\<lambda>n. fst (newRouteNode n m p (Some h)))
                (root_node :: ('h, 'm) RouteNode)) []
           = [''  '' @ m @ '' '' @ concat segs @ p @ ''\<newline>''])"
proof (intro conjI impI)
  show "writeRoute Buffer_Write [] t b
      = map (\<lambda>x. ''  '' @ info_method (info (snd x)) @ '' '' @ b @ concat (fst x) @ ''\<newline>'')
          (filter printable (segment_paths t))"
    by (simp add: writeRoute_Buffer_paths printed_line_def full_path_def Fprintf_route_def)
next
  let ?nest = "Route_nest segs (\<lambda>n. fst (newRouteNode n m p (Some h)))
      (root_node :: ('h, 'm) RouteNode)"
  assume a: "verb m \<and> list_all clean_segment segs \<and> clean_pattern p
      \<and> registerWithChi_checked accepts emptyWrapper ?nest [] = Inr r'"
  then have v: "verb m" and segs: "list_all clean_segment segs" and p: "clean_pattern p"
    and r': "r' = registerWithChi emptyWrapper ?nest []"
    using registerWithChi_checked_Inr [of accepts emptyWrapper ?nest "[]" r'] by simp_all
  have clean: "clean_entries (internal r')"
    unfolding r' using nest_log_clean [OF v p _ segs, of "[]" h "[]"]
    by (simp add: clean_segment_def)
  have "chi_patterns (internal r') = map route_key (mux_routes [] (internal r'))"
    using clean_patterns_are_concatenations(2) [OF clean, of "[]"] by simp
  also have "\<dots> = [(m, concat segs @ p)]"
    unfolding r' by (simp add: nest_routes [OF v] route_key_def)
  finally show "set (chi_patterns (internal r')) = {(m, concat segs @ p)}"
    by simp
  have "writeRoute Buffer_Write [] ?nest []
      = map (printed_line []) (filter printable (segment_paths ?nest))"
    by (rule writeRoute_Buffer_paths)
  also have "\<dots> = map (printed_line [])
      [([] # segs @ [p],
        RouteNode [] \<lparr>info_method = m, info_route = p\<rparr> [] (Some h) :: ('h, 'm) RouteNode)]"
    by (simp only: nest_printable [OF v])
  also have "\<dots> = [''  '' @ m @ '' '' @ concat segs @ p @ ''\<newline>'']"
    by (simp add: printed_line_def full_path_def Fprintf_route_def)
  finally show "writeRoute Buffer_Write [] ?nest []
      = [''  '' @ m @ '' '' @ concat segs @ p @ ''\<newline>'']" .
qed

text \<open>
  C5 on \<^verbatim>\<open>Route("/a", Route("/b", Get("/c", h)))\<close> and on \<^verbatim>\<open>Route("/a/b", Get("/c", h))\<close>,
  with chi's checks: both are reached at \<open>/a/b/c\<close> and printed as \<open>GET /a/b/c\<close>.
\<close>

theorem full_path_is_concatenation_witness:
  "verb GET \<and> list_all clean_segment [''/a'', ''/b''] \<and> list_all clean_segment [''/a/b'']
   \<and> clean_pattern ''/c''
   \<and> registerWithChi_checked chi_v5_accepts emptyWrapper abc_tree []
       = Inr \<lparr>internal = abc_mux, routeTree = None\<rparr>
   \<and> set (chi_patterns abc_mux) = {(''GET'', ''/a/b/c'')}
   \<and> writeRoute Buffer_Write [] abc_tree [] = [''  GET /a/b/c\<newline>'']
   \<and> registerWithChi_checked chi_v5_accepts emptyWrapper ab_c_tree []
       = Inr \<lparr>internal = ab_c_mux, routeTree = None\<rparr>
   \<and> set (chi_patterns ab_c_mux) = {(''GET'', ''/a/b/c'')}
   \<and> writeRoute Buffer_Write [] ab_c_tree [] = [''  GET /a/b/c\<newline>'']"
proof -
  have v: "verb GET"
    by (simp add: verb_def)
  have s2: "list_all clean_segment [''/a'', ''/b'']" and s1: "list_all clean_segment [''/a/b'']"
    by (simp_all add: clean_segment_def clean_pattern_def begins_with_slash_def)
  have p: "clean_pattern ''/c''"
    by (simp add: clean_pattern_def begins_with_slash_def)
  note chain = full_path_is_concatenation [THEN conjunct2, rule_format]
  have c2: "set (chi_patterns (internal \<lparr>internal = abc_mux, routeTree = None\<rparr>))
        = {(GET, concat [''/a'', ''/b''] @ ''/c'')}
      \<and> writeRoute Buffer_Write [] abc_tree []
        = [''  '' @ GET @ '' '' @ concat [''/a'', ''/b''] @ ''/c'' @ ''\<newline>'']"
  proof -
    have "verb GET \<and> list_all clean_segment [''/a'', ''/b''] \<and> clean_pattern ''/c''
        \<and> registerWithChi_checked chi_v5_accepts emptyWrapper
             (Route_nest [''/a'', ''/b''] (\<lambda>n. fst (newRouteNode n GET ''/c'' (Some 1)))
                (root_node :: (nat, nat) RouteNode)) []
           = Inr \<lparr>internal = abc_mux, routeTree = None\<rparr>"
      using v s2 p abc_tree_checked(1) [unfolded abc_tree_nest] by (intro conjI)
    from chain [OF this] show ?thesis
      unfolding abc_tree_nest .
  qed
  have c1: "set (chi_patterns (internal \<lparr>internal = ab_c_mux, routeTree = None\<rparr>))
        = {(GET, concat [''/a/b''] @ ''/c'')}
      \<and> writeRoute Buffer_Write [] ab_c_tree []
        = [''  '' @ GET @ '' '' @ concat [''/a/b''] @ ''/c'' @ ''\<newline>'']"
  proof -
    have "verb GET \<and> list_all clean_segment [''/a/b''] \<and> clean_pattern ''/c''
        \<and> registerWithChi_checked chi_v5_accepts emptyWrapper
             (Route_nest [''/a/b''] (\<lambda>n. fst (newRouteNode n GET ''/c'' (Some 1)))
                (root_node :: (nat, nat) RouteNode)) []
           = Inr \<lparr>internal = ab_c_mux, routeTree = None\<rparr>"
      using v s1 p abc_tree_checked(2) [unfolded abc_tree_nest] by (intro conjI)
    from chain [OF this] show ?thesis
      unfolding abc_tree_nest .
  qed
  from v s1 s2 p c1 c2 abc_tree_checked show ?thesis
    by (simp add: GET_def)
qed

text \<open>
  C5 as stated fails in the dispatcher. For \<^verbatim>\<open>Route("/api/", Get("/a", h))\<close> the plain
  concatenation is \<open>/api//a\<close>, which the printer writes, while chi reaches the handler
  at \<open>/api/a\<close> and not at \<open>/api//a\<close>. For \<^verbatim>\<open>Route("api", Get("/a", h))\<close> chi panics and
  nothing is registered.
\<close>

theorem trailing_slash_counterexample:
  "registerWithChi_checked chi_v5_accepts emptyWrapper slash_tree []
     = Inr \<lparr>internal = slash_mux, routeTree = None\<rparr>
   \<and> chi_patterns slash_mux = [(''GET'', ''/api/a'')]
   \<and> concat [''/api/'', ''/a''] = ''/api//a''
   \<and> (''GET'', ''/api//a'') \<notin> set (chi_patterns slash_mux)
   \<and> writeRoute Buffer_Write [] slash_tree [] = [''  GET /api//a\<newline>'']
   \<and> registerWithChi_checked chi_v5_accepts emptyWrapper noslash_tree []
     = Inl RegistrationPanic"
  by (simp add: registerWithChi_checked_def slash_tree_def noslash_tree_def slash_mux_def
      Route_eq Get_def newRouteNode_def group_node_def registerWithChi.simps
      registerMethodWithMiddleware_def begins_with_slash_def mount_prefix_def Let_def
      writeRoute_Buffer_unfold Fprintf_route_def GET_def Undefined_def)

end
